theory Spec2Isabelle
  imports Complex_Main "HOL-Library.Multiset"
begin

section \<open>Data model\<close>

text \<open>
  The pages \<^verbatim>\<open>Pages/Cart.js\<close> and \<^verbatim>\<open>Pages/Shop.js\<close> work on plain JavaScript objects.
  Identifiers (product ids, store ids of cart lines) are opaque keys that the code only
  compares with \<^verbatim>\<open>===\<close> and uses as map keys: they are natural numbers here. JavaScript
  numbers are modelled by \<open>int\<close> (quantities, stock, timestamps) and \<open>real\<close> (prices,
  ratings); rounding of doubles is not modelled. A property that an object may lack
  (\<^verbatim>\<open>product.description?.\<close>, \<^verbatim>\<open>product.brand?.\<close>, \<^verbatim>\<open>a.rating || 0\<close>) is an \<open>option\<close>.
\<close>

type_synonym ident = nat

text \<open>The two properties every cart line has, in local storage and in the remote store.\<close>

record line =
  product_id :: ident
  quantity :: int

text \<open>
  A \<^verbatim>\<open>CartItem\<close> entity of the remote store: \<open>item_id\<close> is its property \<^verbatim>\<open>id\<close>.
  The cart page keeps guest lines in the same list (\<^verbatim>\<open>{...item, id: item.product_id}\<close>);
  such a line has no \<^verbatim>\<open>user_email\<close>.
\<close>

record cart_item = line +
  item_id :: ident
  user_email :: "string option"

text \<open>An entry of the \<^verbatim>\<open>anonymousCart\<close> array kept in local storage.\<close>

record local_item = line +
  name :: string
  price :: real
  image_url :: string
  brand :: "string option"

text \<open>
  A \<^verbatim>\<open>Product\<close> entity; \<open>id'\<close> is its property \<^verbatim>\<open>id\<close>. The first five properties are
  the ones the cart page reads from a product, and the ones it rebuilds for a guest line
  (\<^verbatim>\<open>{ id, name, price, image_url, brand }\<close>).
\<close>

record product_info =
  id' :: ident
  name :: string
  price :: real
  image_url :: string
  brand :: "string option"

record product = product_info +
  description :: "string option"
  category :: string
  stock :: int
  rating :: "real option"
  created_date :: int

text \<open>The value returned by \<^verbatim>\<open>User.me()\<close>.\<close>

record user =
  email :: string

section \<open>Catalog filter and sort engine (\<^verbatim>\<open>Pages/Shop.js\<close>)\<close>

record filters =
  categories :: "string list"
  brands :: "string list"
  priceRange :: "(real \<times> real) option"
  inStock :: bool

record shop =
  products :: "product list"
  filteredProducts :: "product list"
  loading :: bool
  searchTerm :: string
  sortBy :: string
  viewMode :: string
  user :: "user option"
  isFiltersOpen :: bool
  filters :: filters

text \<open>The initial values given to \<^verbatim>\<open>useState\<close> in \<^verbatim>\<open>Shop\<close>.\<close>

definition Shop_init :: shop where
  "Shop_init =
     \<lparr>shop.products = [], filteredProducts = [], loading = True, searchTerm = [],
      sortBy = ''name'', viewMode = ''grid'', user = None, isFiltersOpen = False,
      filters = \<lparr>categories = [], brands = [], priceRange = Some (0, 1000), inStock = False\<rparr>\<rparr>"

definition clearFilters :: "shop \<Rightarrow> shop" where
  "clearFilters st =
     st\<lparr>filters := \<lparr>categories = [], brands = [], priceRange = Some (0, 1000), inStock = False\<rparr>,
        searchTerm := []\<rparr>"

subsection \<open>Strings\<close>

text \<open>\<^verbatim>\<open>String.prototype.toLowerCase\<close>, on ASCII letters.\<close>

definition lower_char :: "char \<Rightarrow> char" where
  "lower_char c =
     (let n = (of_char c :: nat) in if 65 \<le> n \<and> n \<le> 90 then char_of (n + 32) else c)"

definition toLowerCase :: "string \<Rightarrow> string" where
  "toLowerCase s = map lower_char s"

text \<open>\<^verbatim>\<open>s.includes(t)\<close>: \<open>t\<close> occurs in \<open>s\<close> as a contiguous substring.\<close>

fun includes_str :: "string \<Rightarrow> string \<Rightarrow> bool" where
  "includes_str [] t = (t = [])"
| "includes_str (c # cs) t = (take (length t) (c # cs) = t \<or> includes_str cs t)"

subsection \<open>The five filters\<close>

definition matchesSearch :: "string \<Rightarrow> product \<Rightarrow> bool" where
  "matchesSearch needle p =
     (includes_str (toLowerCase (name p)) (toLowerCase needle)
      \<or> (case description p of None \<Rightarrow> False
          | Some d \<Rightarrow> includes_str (toLowerCase d) (toLowerCase needle))
      \<or> (case brand p of None \<Rightarrow> False
          | Some b \<Rightarrow> includes_str (toLowerCase b) (toLowerCase needle)))"

definition searchFilter :: "string \<Rightarrow> product list \<Rightarrow> product list" where
  "searchFilter needle filtered =
     (if needle \<noteq> [] then filter (matchesSearch needle) filtered else filtered)"

definition categoryFilter :: "filters \<Rightarrow> product list \<Rightarrow> product list" where
  "categoryFilter f filtered =
     (if length (categories f) > 0
      then filter (\<lambda>p. List.member (categories f) (category p)) filtered else filtered)"

definition brandFilter :: "filters \<Rightarrow> product list \<Rightarrow> product list" where
  "brandFilter f filtered =
     (if length (brands f) > 0
      then filter (\<lambda>p. case brand p of None \<Rightarrow> False | Some b \<Rightarrow> List.member (brands f) b)
             filtered
      else filtered)"

definition priceFilter :: "filters \<Rightarrow> product list \<Rightarrow> product list" where
  "priceFilter f filtered =
     (case priceRange f of
        None \<Rightarrow> filtered
      | Some (lo, hi) \<Rightarrow> filter (\<lambda>p. price p \<ge> lo \<and> price p \<le> hi) filtered)"

definition stockFilter :: "filters \<Rightarrow> product list \<Rightarrow> product list" where
  "stockFilter f filtered =
     (if inStock f then filter (\<lambda>p. stock p > 0) filtered else filtered)"

subsection \<open>Sorting\<close>

text \<open>\<^verbatim>\<open>x || 0\<close> on an optional number.\<close>

definition orZero :: "real option \<Rightarrow> real" where
  "orZero r = (case r of None \<Rightarrow> 0 | Some x \<Rightarrow> x)"

text \<open>
  The comparator handed to \<^verbatim>\<open>filtered.sort\<close>. \<^verbatim>\<open>String.prototype.localeCompare\<close> depends on
  the runtime's collation and is a parameter. \<^verbatim>\<open>created_date\<close> is the time value that
  \<^verbatim>\<open>new Date(...)\<close> yields.
\<close>

definition sortCompare ::
  "(string \<Rightarrow> string \<Rightarrow> real) \<Rightarrow> string \<Rightarrow> product \<Rightarrow> product \<Rightarrow> real" where
  "sortCompare localeCompare key a b =
     (if key = ''price-low'' then price a - price b
      else if key = ''price-high'' then price b - price a
      else if key = ''rating'' then orZero (rating b) - orZero (rating a)
      else if key = ''newest'' then of_int (created_date b) - of_int (created_date a)
      else localeCompare (name a) (name b))"

text \<open>
  Modelled from the spec: \<^verbatim>\<open>Array.prototype.sort\<close> belongs to the JavaScript runtime and is
  not part of the sources. The spec asks for a stable sort ("Sort, stable, by key"), as
  ECMAScript does since its 2019 edition: an element moves behind another one only
  when the comparator returns a positive number for the pair.
\<close>

fun insert_sorted :: "('a \<Rightarrow> 'a \<Rightarrow> real) \<Rightarrow> 'a \<Rightarrow> 'a list \<Rightarrow> 'a list" where
  "insert_sorted cmp x [] = [x]"
| "insert_sorted cmp x (y # ys) =
     (if cmp x y > 0 then y # insert_sorted cmp x ys else x # y # ys)"

text \<open>Modelled from the spec: \<^verbatim>\<open>Array.prototype.sort\<close> with a comparator, as above: each
  element is placed in front of the sorted rest and moves behind the elements it compares
  greater than.\<close>

fun sort_js :: "('a \<Rightarrow> 'a \<Rightarrow> real) \<Rightarrow> 'a list \<Rightarrow> 'a list" where
  "sort_js cmp [] = []"
| "sort_js cmp (x # xs) = insert_sorted cmp x (sort_js cmp xs)"

subsection \<open>\<^verbatim>\<open>applyFilters\<close>\<close>

definition applyFilters :: "(string \<Rightarrow> string \<Rightarrow> real) \<Rightarrow> shop \<Rightarrow> shop" where
  "applyFilters localeCompare st =
     (let filtered = shop.products st;
          filtered = searchFilter (searchTerm st) filtered;
          filtered = categoryFilter (filters st) filtered;
          filtered = brandFilter (filters st) filtered;
          filtered = priceFilter (filters st) filtered;
          filtered = stockFilter (filters st) filtered;
          filtered = sort_js (sortCompare localeCompare (sortBy st)) filtered
      in st\<lparr>filteredProducts := filtered\<rparr>)"

text \<open>The filters of \<^verbatim>\<open>applyFilters\<close> in the order of the source, and what each one keeps.\<close>

definition filterStages :: "string \<Rightarrow> filters \<Rightarrow> (product list \<Rightarrow> product list) list" where
  "filterStages needle f =
     [searchFilter needle, categoryFilter f, brandFilter f, priceFilter f, stockFilter f]"

definition keeps :: "string \<Rightarrow> filters \<Rightarrow> product \<Rightarrow> bool" where
  "keeps needle f p =
     ((if needle \<noteq> [] then matchesSearch needle p else True)
      \<and> (if length (categories f) > 0 then List.member (categories f) (category p) else True)
      \<and> (if length (brands f) > 0
          then (case brand p of None \<Rightarrow> False | Some b \<Rightarrow> List.member (brands f) b) else True)
      \<and> (case priceRange f of None \<Rightarrow> True | Some (lo, hi) \<Rightarrow> price p \<ge> lo \<and> price p \<le> hi)
      \<and> (if inStock f then stock p > 0 else True))"

section \<open>External collaborators\<close>

text \<open>
  What the pages reach through \<^verbatim>\<open>CartItem\<close>, \<^verbatim>\<open>Product\<close>, \<^verbatim>\<open>localStorage\<close>, \<^verbatim>\<open>toast\<close>,
  \<^verbatim>\<open>window.dispatchEvent\<close> and \<^verbatim>\<open>console.error\<close>. The value under the key
  \<^verbatim>\<open>anonymousCart\<close> is only ever written with \<^verbatim>\<open>JSON.stringify\<close> of an array of guest
  lines, so it is that array; \<open>None\<close> is the absent key.
\<close>

datatype toast = Toast string string bool
  \<comment> \<open>title, description, and whether the variant is \<^verbatim>\<open>destructive\<close>\<close>

record world =
  db :: "cart_item list"
  catalog :: "product list"
  anonymousCart :: "local_item list option"
  toasts :: "toast list"
  events :: "string list"
  console :: "string list"

text \<open>\<^verbatim>\<open>JSON.parse(localStorage.getItem('anonymousCart') || '[]')\<close>\<close>

definition getLocalCart :: "'a world_scheme \<Rightarrow> local_item list" where
  "getLocalCart w = (case anonymousCart w of None \<Rightarrow> [] | Some localCart \<Rightarrow> localCart)"

text \<open>
  Modelled from the spec: the entity stores behind \<^verbatim>\<open>@/entities/CartItem\<close> and
  \<^verbatim>\<open>@/entities/Product\<close> are not part of the sources. The spec gives them as
  \<^verbatim>\<open>filter(criteria)\<close>, \<^verbatim>\<open>create(line)\<close>, \<^verbatim>\<open>update(id, {quantity})\<close>, \<^verbatim>\<open>delete(id)\<close>, with lines
  "keyed by a store-assigned identifier". Each call other than a read takes the outcome
  \<open>ok\<close> that the remote side decides, and returns whether its promise fulfils together with
  the lines of the store afterwards; a rejected call changes nothing.
\<close>

definition CartItem_filter :: "string \<Rightarrow> ident option \<Rightarrow> cart_item list \<Rightarrow> cart_item list" where
  "CartItem_filter userEmail productId lines =
     filter (\<lambda>item. user_email item = Some userEmail
                \<and> (case productId of None \<Rightarrow> True | Some p \<Rightarrow> product_id item = p)) lines"

text \<open>Modelled from the spec: the "store-assigned identifier" of a new line, an id that no
  line of the store carries.\<close>

definition fresh_id :: "cart_item list \<Rightarrow> ident" where
  "fresh_id lines = Suc (fold max (map item_id lines) 0)"

text \<open>Modelled from the spec: \<^verbatim>\<open>create(line)\<close> of the cart line store, missing from the
  sources; it adds the line under a new id.\<close>

definition CartItem_create ::
  "ident \<Rightarrow> int \<Rightarrow> string \<Rightarrow> bool \<Rightarrow> cart_item list \<Rightarrow> bool \<times> cart_item list" where
  "CartItem_create productId qty userEmail ok lines =
     (if ok
      then (True, lines @ [\<lparr>product_id = productId, quantity = qty,
                            item_id = fresh_id lines, user_email = Some userEmail\<rparr>])
      else (False, lines))"

text \<open>Modelled from the spec: \<^verbatim>\<open>update(id, {quantity})\<close> of the cart line store, missing
  from the sources; it sets the quantity of the line with that id, and rejects when there
  is none.\<close>

definition CartItem_update :: "ident \<Rightarrow> int \<Rightarrow> bool \<Rightarrow> cart_item list \<Rightarrow> bool \<times> cart_item list" where
  "CartItem_update i qty ok lines =
     (if ok \<and> i \<in> set (map item_id lines)
      then (True, map (\<lambda>item. if item_id item = i then item\<lparr>quantity := qty\<rparr> else item) lines)
      else (False, lines))"

text \<open>Modelled from the spec: \<^verbatim>\<open>delete(id)\<close> of the cart line store, missing from the
  sources; it rejects when no line has that id.\<close>

definition CartItem_delete :: "ident \<Rightarrow> bool \<Rightarrow> cart_item list \<Rightarrow> bool \<times> cart_item list" where
  "CartItem_delete i ok lines =
     (if ok \<and> i \<in> set (map item_id lines)
      then (True, filter (\<lambda>item. item_id item \<noteq> i) lines)
      else (False, lines))"

text \<open>Modelled from the spec: \<^verbatim>\<open>getByIds(ids)\<close> of the product store
  (\<^verbatim>\<open>Product.filter({ id: productIds })\<close>), missing from the sources.\<close>

definition Product_filter :: "ident list \<Rightarrow> product list \<Rightarrow> product list" where
  "Product_filter ids ps = filter (\<lambda>p. id' p \<in> set ids) ps"

section \<open>Adding to the cart (\<^verbatim>\<open>Pages/Shop.js\<close>)\<close>

text \<open>\<^verbatim>\<open>Array.prototype.findIndex\<close>, with \<open>None\<close> for \<^verbatim>\<open>-1\<close>.\<close>

fun findIndex :: "('a \<Rightarrow> bool) \<Rightarrow> 'a list \<Rightarrow> nat option" where
  "findIndex P [] = None"
| "findIndex P (x # xs) = (if P x then Some 0 else map_option Suc (findIndex P xs))"

text \<open>
  \<open>filter_ok\<close> and \<open>write_ok\<close> are the outcomes of the two remote calls of the logged-in
  branch (\<^verbatim>\<open>CartItem.filter\<close>, then \<^verbatim>\<open>CartItem.update\<close> or \<^verbatim>\<open>CartItem.create\<close>).
\<close>

definition handleAddToCart ::
  "shop \<Rightarrow> product \<Rightarrow> bool \<Rightarrow> bool \<Rightarrow> 'a world_scheme \<Rightarrow> 'a world_scheme" where
  "handleAddToCart st product filter_ok write_ok w =
     (let added = Toast ''Added to cart'' (name product @ '' has been added to your cart'') False;
          failed = Toast ''Error'' ''Failed to add item to cart'' True;
          w1 =
            (case shop.user st of
               Some u \<Rightarrow>
                 if \<not> filter_ok then w\<lparr>toasts := toasts w @ [failed]\<rparr>
                 else
                   let existingItems = CartItem_filter (email u) (Some (id' product)) (db w);
                       (fulfilled, lines) =
                         (case existingItems of
                            existingItem # _ \<Rightarrow>
                              CartItem_update (item_id existingItem) (quantity existingItem + 1)
                                write_ok (db w)
                          | [] \<Rightarrow> CartItem_create (id' product) 1 (email u) write_ok (db w))
                   in if fulfilled then w\<lparr>db := lines, toasts := toasts w @ [added]\<rparr>
                      else w\<lparr>toasts := toasts w @ [failed]\<rparr>
             | None \<Rightarrow>
                 let anonymousCart = getLocalCart w;
                     existingItemIndex =
                       findIndex (\<lambda>item. product_id item = id' product) anonymousCart;
                     anonymousCart =
                       (case existingItemIndex of
                          Some i \<Rightarrow>
                            anonymousCart[i := (anonymousCart ! i)
                               \<lparr>quantity := quantity (anonymousCart ! i) + 1\<rparr>]
                        | None \<Rightarrow>
                            anonymousCart @
                              [\<lparr>product_id = id' product, quantity = 1,
                                local_item.name = name product, local_item.price = price product,
                                local_item.image_url = image_url product,
                                local_item.brand = brand product\<rparr>])
                 in w\<lparr>anonymousCart := Some anonymousCart, toasts := toasts w @ [added]\<rparr>)
      in w1\<lparr>events := events w1 @ [''cartUpdated'']\<rparr>)"

section \<open>The cart page (\<^verbatim>\<open>Pages/Cart.js\<close>)\<close>

text \<open>
  The state of the component (its \<^verbatim>\<open>useState\<close> cells) on top of the collaborators. The
  map \<open>products\<close> keeps of each product the properties that the page reads.
\<close>

record cart = world +
  cartItems :: "cart_item list"
  products :: "ident \<rightharpoonup> product_info"
  loading :: bool
  user :: "user option"
  updating :: "ident \<rightharpoonup> bool"
  isMerging :: bool

subsection \<open>\<^verbatim>\<open>mergeCarts\<close>\<close>

text \<open>\<^verbatim>\<open>new Map(dbCartItems.map(item => [item.product_id, item]))\<close>: a later entry replaces
  an earlier one with the same key.\<close>

definition dbCartMap :: "cart_item list \<Rightarrow> ident \<rightharpoonup> cart_item" where
  "dbCartMap dbCartItems = fold (\<lambda>item m. m(product_id item \<mapsto> item)) dbCartItems Map.empty"

text \<open>
  The callback of \<^verbatim>\<open>localCart.map(localItem => ...)\<close>: one remote call for a guest line,
  with the outcome \<open>ok\<close> of that call.
\<close>

definition mergeLine ::
  "(ident \<rightharpoonup> cart_item) \<Rightarrow> string \<Rightarrow> bool \<Rightarrow> local_item \<Rightarrow> cart_item list
   \<Rightarrow> bool \<times> cart_item list" where
  "mergeLine dbMap userEmail ok localItem lines =
     (case dbMap (product_id localItem) of
        Some dbItem \<Rightarrow>
          CartItem_update (item_id dbItem) (quantity dbItem + quantity localItem) ok lines
      | None \<Rightarrow>
          CartItem_create (product_id localItem) (quantity localItem) userEmail ok lines)"

text \<open>
  The calls are issued in the order of the guest lines; \<open>outcome i\<close> is the outcome of the
  call for the line at index \<open>i\<close>. The result is the list of promise outcomes and the
  lines of the store once every call has been served.
\<close>

fun mergeLines ::
  "(ident \<rightharpoonup> cart_item) \<Rightarrow> string \<Rightarrow> (nat \<Rightarrow> bool) \<Rightarrow> nat \<Rightarrow> local_item list \<Rightarrow> cart_item list
   \<Rightarrow> bool list \<times> cart_item list" where
  "mergeLines dbMap userEmail outcome i [] lines = ([], lines)"
| "mergeLines dbMap userEmail outcome i (localItem # rest) lines =
     (let (fulfilled, lines1) = mergeLine dbMap userEmail (outcome i) localItem lines;
          (promises, lines2) = mergeLines dbMap userEmail outcome (Suc i) rest lines1
      in (fulfilled # promises, lines2))"

text \<open>The pieces of \<^verbatim>\<open>mergeCarts\<close> between its two \<^verbatim>\<open>await\<close>s, and its handlers.\<close>

definition mergeCarts_start :: "cart \<Rightarrow> cart" where
  "mergeCarts_start st = st\<lparr>isMerging := True\<rparr>"

definition mergeCarts_dispatch ::
  "local_item list \<Rightarrow> string \<Rightarrow> (nat \<Rightarrow> bool) \<Rightarrow> cart \<Rightarrow> bool list \<times> cart" where
  "mergeCarts_dispatch localCart userEmail outcome st =
     (let dbCartItems = CartItem_filter userEmail None (db st);
          (promises, lines) =
             mergeLines (dbCartMap dbCartItems) userEmail outcome 0 localCart (db st)
      in (promises, st\<lparr>db := lines\<rparr>))"

definition mergeCarts_catch :: "cart \<Rightarrow> cart" where
  "mergeCarts_catch st =
     st\<lparr>console := console st @ [''Error merging carts:''],
        toasts := toasts st @
          [Toast ''Error merging carts''
             ''There was a problem merging your carts. Please try again.'' True]\<rparr>"

definition mergeCarts_finally :: "cart \<Rightarrow> cart" where
  "mergeCarts_finally st = st\<lparr>isMerging := False, events := events st @ [''cartUpdated'']\<rparr>"

text \<open>After \<^verbatim>\<open>await Promise.all(promises)\<close>, which rejects when one of the promises does.\<close>

definition mergeCarts_settle :: "bool list \<Rightarrow> cart \<Rightarrow> cart" where
  "mergeCarts_settle promises st =
     mergeCarts_finally
       (if list_all (\<lambda>fulfilled. fulfilled) promises
        then st\<lparr>anonymousCart := None,
                toasts := toasts st @
                  [Toast ''Cart Updated''
                     ''Your guest cart has been merged with your account.'' False]\<rparr>
        else mergeCarts_catch st)"

text \<open>\<^verbatim>\<open>mergeCarts\<close> run from start to end with nothing else in between.\<close>

definition mergeCarts ::
  "local_item list \<Rightarrow> string \<Rightarrow> bool \<Rightarrow> (nat \<Rightarrow> bool) \<Rightarrow> cart \<Rightarrow> cart" where
  "mergeCarts localCart userEmail filter_ok outcome st =
     (let st1 = mergeCarts_start st
      in if \<not> filter_ok then mergeCarts_finally (mergeCarts_catch st1)
         else let (promises, st2) = mergeCarts_dispatch localCart userEmail outcome st1
              in mergeCarts_settle promises st2)"

subsection \<open>\<^verbatim>\<open>loadUser\<close>\<close>

text \<open>
  What the remote side answers to one call of \<^verbatim>\<open>loadUser\<close>: the user of \<^verbatim>\<open>User.me()\<close>
  (\<open>None\<close> when it rejects) and the outcomes of the calls of the merge.
\<close>

record replies =
  me :: "user option"
  filter_ok :: bool
  line_ok :: "nat \<Rightarrow> bool"

definition loadUser :: "replies \<Rightarrow> cart \<Rightarrow> cart" where
  "loadUser r st =
     (case me r of
        None \<Rightarrow> st\<lparr>user := None\<rparr>
      | Some currentUser \<Rightarrow>
          let st1 = st\<lparr>user := Some currentUser\<rparr>;
              localCart = getLocalCart st1
          in if length localCart > 0 \<and> email currentUser \<noteq> []
             then mergeCarts localCart (email currentUser) (filter_ok r) (line_ok r) st1
             else st1)"

text \<open>
  The same code cut at its \<^verbatim>\<open>await\<close>s; a remote call is served when its caller is resumed. The scheduling is single-threaded and cooperative:
  a call of \<^verbatim>\<open>loadUser\<close> runs from one \<^verbatim>\<open>await\<close> to the next without interruption, and
  other calls may run while it waits. A task is the \<^verbatim>\<open>await\<close> a call is suspended at.
\<close>

datatype task =
    AwaitMe
  | AwaitFilter "local_item list" string
  | AwaitAll "bool list"
  | Done

fun resume :: "replies \<Rightarrow> task \<Rightarrow> cart \<Rightarrow> task \<times> cart" where
  "resume r AwaitMe st =
     (case me r of
        None \<Rightarrow> (Done, st\<lparr>user := None\<rparr>)
      | Some currentUser \<Rightarrow>
          let st1 = st\<lparr>user := Some currentUser\<rparr>;
              localCart = getLocalCart st1
          in if length localCart > 0 \<and> email currentUser \<noteq> []
             then (AwaitFilter localCart (email currentUser), mergeCarts_start st1)
             else (Done, st1))"
| "resume r (AwaitFilter localCart userEmail) st =
     (if \<not> filter_ok r then (Done, mergeCarts_finally (mergeCarts_catch st))
      else let (promises, st2) = mergeCarts_dispatch localCart userEmail (line_ok r) st
           in (AwaitAll promises, st2))"
| "resume r (AwaitAll promises) st = (Done, mergeCarts_settle promises st)"
| "resume r Done st = (Done, st)"

text \<open>A schedule names, step by step, the call that is resumed next.\<close>

fun run :: "nat list \<Rightarrow> (replies \<times> task) list \<Rightarrow> cart \<Rightarrow> (replies \<times> task) list \<times> cart" where
  "run [] ts st = (ts, st)"
| "run (i # sched) ts st =
     (if i < length ts
      then let (r, t) = ts ! i; (t', st') = resume r t st in run sched (ts[i := (r, t')]) st'
      else run sched ts st)"

subsection \<open>\<^verbatim>\<open>loadCartItems\<close>\<close>

definition loadFailed :: "cart \<Rightarrow> cart" where
  "loadFailed st =
     st\<lparr>console := console st @ [''Failed to load cart items:''],
        toasts := toasts st @ [Toast ''Error'' ''Failed to load cart items'' True],
        loading := False\<rparr>"

text \<open>
  \<open>items_ok\<close> and \<open>products_ok\<close> are the outcomes of \<^verbatim>\<open>CartItem.filter\<close> and
  \<^verbatim>\<open>Product.filter\<close>.
\<close>

definition loadCartItems :: "bool \<Rightarrow> bool \<Rightarrow> cart \<Rightarrow> cart" where
  "loadCartItems items_ok products_ok st =
     (case (case user st of None \<Rightarrow> None | Some u \<Rightarrow> if email u \<noteq> [] then Some (email u) else None) of
        None \<Rightarrow>
          let st1 = st\<lparr>loading := True\<rparr>;
              localCart = getLocalCart st1;
              productMap =
                fold (\<lambda>item m. m(product_id item \<mapsto>
                        \<lparr>id' = product_id item, name = local_item.name item,
                         price = local_item.price item, image_url = local_item.image_url item,
                         brand = local_item.brand item\<rparr>)) localCart Map.empty
          in st1\<lparr>products := productMap,
                 cartItems := map (\<lambda>item. \<lparr>product_id = product_id item, quantity = quantity item,
                                          item_id = product_id item, user_email = None\<rparr>) localCart,
                 loading := False\<rparr>
      | Some userEmail \<Rightarrow>
          let st1 = st\<lparr>loading := True\<rparr>
          in if \<not> items_ok then loadFailed st1
             else
               let items = CartItem_filter userEmail None (db st1);
                   st2 = st1\<lparr>cartItems := items\<rparr>;
                   productIds = remdups (map product_id items)
               in if length productIds > 0 \<and> \<not> products_ok then loadFailed st2
                  else
                    let productList =
                          (if length productIds > 0 then Product_filter productIds (catalog st2)
                           else []);
                        productMap =
                          fold (\<lambda>product m. m(id' product \<mapsto> product_info.truncate product))
                            productList Map.empty
                    in st2\<lparr>products := productMap, loading := False\<rparr>)"

subsection \<open>\<^verbatim>\<open>updateQuantity\<close> and \<^verbatim>\<open>removeItem\<close>\<close>

definition updateQuantity :: "ident \<Rightarrow> int \<Rightarrow> bool \<Rightarrow> bool \<Rightarrow> bool \<Rightarrow> cart \<Rightarrow> cart" where
  "updateQuantity productId newQuantity update_ok items_ok products_ok st =
     (if newQuantity < 1 then st
      else
        let st1 = st\<lparr>updating := (updating st)(productId \<mapsto> True)\<rparr>;
            reload = (\<lambda>s.
              let s1 = loadCartItems items_ok products_ok s;
                  s2 = s1\<lparr>events := events s1 @ [''cartUpdated'']\<rparr>
              in s2\<lparr>updating := (updating s2)(productId \<mapsto> False)\<rparr>)
        in case user st1 of
             Some u \<Rightarrow>
               (case find (\<lambda>item. product_id item = productId) (cartItems st1) of
                  None \<Rightarrow> st1\<lparr>updating := (updating st1)(productId \<mapsto> False)\<rparr>
                | Some cartItem \<Rightarrow>
                    let (fulfilled, lines) =
                          CartItem_update (item_id cartItem) newQuantity update_ok (db st1)
                    in if fulfilled then reload (st1\<lparr>db := lines\<rparr>)
                       else reload
                         (st1\<lparr>console := console st1 @ [''Failed to update quantity in DB:''],
                              toasts := toasts st1 @
                                [Toast ''Error'' ''Failed to update quantity'' True]\<rparr>))
           | None \<Rightarrow>
               let localCart = getLocalCart st1;
                   localCart = map (\<lambda>item. if product_id item = productId
                                            then item\<lparr>quantity := newQuantity\<rparr> else item) localCart
               in reload (st1\<lparr>anonymousCart := Some localCart\<rparr>))"

definition removeItem :: "ident \<Rightarrow> bool \<Rightarrow> bool \<Rightarrow> bool \<Rightarrow> cart \<Rightarrow> cart" where
  "removeItem productId delete_ok items_ok products_ok st =
     (let st1 = st\<lparr>updating := (updating st)(productId \<mapsto> True)\<rparr>;
          removed = Toast ''Item removed'' ''Item has been removed from your cart'' False;
          reload = (\<lambda>s.
            let s1 = loadCartItems items_ok products_ok s;
                s2 = s1\<lparr>events := events s1 @ [''cartUpdated'']\<rparr>
            in s2\<lparr>updating := (updating s2)(productId \<mapsto> False)\<rparr>)
      in case user st1 of
           Some u \<Rightarrow>
             (case find (\<lambda>item. product_id item = productId) (cartItems st1) of
                None \<Rightarrow> st1\<lparr>updating := (updating st1)(productId \<mapsto> False)\<rparr>
              | Some cartItem \<Rightarrow>
                  let (fulfilled, lines) = CartItem_delete (item_id cartItem) delete_ok (db st1)
                  in if fulfilled then reload (st1\<lparr>db := lines, toasts := toasts st1 @ [removed]\<rparr>)
                     else reload
                       (st1\<lparr>console := console st1 @ [''Failed to remove item from DB:''],
                            toasts := toasts st1 @
                              [Toast ''Error'' ''Failed to remove item'' True]\<rparr>))
         | None \<Rightarrow>
             let localCart = getLocalCart st1;
                 localCart = filter (\<lambda>item. product_id item \<noteq> productId) localCart
             in reload (st1\<lparr>anonymousCart := Some localCart, toasts := toasts st1 @ [removed]\<rparr>))"

subsection \<open>Totals\<close>

definition getSubtotal :: "cart \<Rightarrow> real" where
  "getSubtotal st =
     foldl (\<lambda>total item.
              total + (case products st (product_id item) of
                         Some product \<Rightarrow> price product * of_int (quantity item)
                       | None \<Rightarrow> 0))
       0 (cartItems st)"

definition getTax :: "cart \<Rightarrow> real" where
  "getTax st = getSubtotal st * 0.08"

definition getTotal :: "cart \<Rightarrow> real" where
  "getTotal st = getSubtotal st + getTax st"

section \<open>Example data\<close>

definition scarf :: product where
  "scarf = \<lparr>id' = 1, name = ''Silk Scarf'', price = 1000, image_url = ''scarf.png'',
     brand = Some ''Luxe'', description = Some ''Soft and light'', category = ''accessories'',
     stock = 3, rating = None, created_date = 10\<rparr>"

definition coat :: product where
  "coat = \<lparr>id' = 2, name = ''Wool Coat'', price = 1200, image_url = ''coat.png'',
     brand = None, description = None, category = ''outerwear'',
     stock = 0, rating = Some 0, created_date = 20\<rparr>"

definition jacket :: product where
  "jacket = \<lparr>id' = 3, name = ''Denim Jacket'', price = 80, image_url = ''jacket.png'',
     brand = Some ''Luxe'', description = None, category = ''outerwear'',
     stock = 5, rating = Some 4.5, created_date = 30\<rparr>"

definition guestA :: local_item where
  "guestA = \<lparr>product_id = 1, quantity = 2, local_item.name = ''Silk Scarf'',
     local_item.price = 1000, local_item.image_url = ''scarf.png'',
     local_item.brand = Some ''Luxe''\<rparr>"

definition remoteA :: cart_item where
  "remoteA = \<lparr>product_id = 1, quantity = 3, item_id = 7, user_email = Some ''ann@example.com''\<rparr>"

definition ann :: user where
  "ann = \<lparr>email = ''ann@example.com''\<rparr>"

definition replyAnn :: replies where
  "replyAnn = \<lparr>me = Some ann, filter_ok = True, line_ok = (\<lambda>i. True)\<rparr>"

definition replyRefused :: replies where
  "replyRefused = \<lparr>me = Some ann, filter_ok = True, line_ok = (\<lambda>i. False)\<rparr>"

text \<open>Two calls of \<^verbatim>\<open>loadUser\<close> for the same login, both about to start.\<close>

definition two_calls :: "(replies \<times> task) list" where
  "two_calls = [(replyAnn, AwaitMe), (replyAnn, AwaitMe)]"

text \<open>A freshly mounted cart page, with the given remote lines and guest cart.\<close>

definition cart_page :: "cart_item list \<Rightarrow> local_item list option \<Rightarrow> cart" where
  "cart_page lines guest =
     \<lparr>db = lines, catalog = [scarf, coat, jacket], anonymousCart = guest, toasts = [],
      events = [], console = [], cartItems = [], products = Map.empty, loading = True,
      user = None, updating = Map.empty, isMerging = False\<rparr>"

definition shop_world :: "cart_item list \<Rightarrow> world" where
  "shop_world lines =
     \<lparr>db = lines, catalog = [scarf, coat, jacket], anonymousCart = None, toasts = [],
      events = [], console = []\<rparr>"

section \<open>Properties of the filter and sort engine\<close>

subsection \<open>Each filter keeps the products that satisfy its predicate\<close>

lemma stage_forms:
  "searchFilter needle = filter (\<lambda>p. if needle \<noteq> [] then matchesSearch needle p else True)"
  "categoryFilter f =
     filter (\<lambda>p. if length (categories f) > 0 then List.member (categories f) (category p)
                 else True)"
  "brandFilter f =
     filter (\<lambda>p. if length (brands f) > 0
                 then (case brand p of None \<Rightarrow> False | Some b \<Rightarrow> List.member (brands f) b)
                 else True)"
  "priceFilter f =
     filter (\<lambda>p. case priceRange f of None \<Rightarrow> True
                 | Some (lo, hi) \<Rightarrow> price p \<ge> lo \<and> price p \<le> hi)"
  "stockFilter f = filter (\<lambda>p. if inStock f then stock p > 0 else True)"
  by (auto simp: searchFilter_def categoryFilter_def brandFilter_def priceFilter_def
        stockFilter_def fun_eq_iff split: option.splits)

lemma filter_swap: "filter P (filter Q xs) = filter Q (filter P xs)"
  by (induction xs) auto

lemma stages_are_filters: "s \<in> set (filterStages needle f) \<Longrightarrow> \<exists>P. s = filter P"
  unfolding filterStages_def using stage_forms by auto

lemma stages_commute:
  "s1 \<in> set (filterStages needle f) \<Longrightarrow> s2 \<in> set (filterStages needle f) \<Longrightarrow>
   s1 (s2 xs) = s2 (s1 xs)"
  using stages_are_filters filter_swap by metis

lemma fold_filters:
  "(\<forall>s \<in> set ss. \<exists>P. s = filter P) \<Longrightarrow>
   fold (\<lambda>s. s) ss xs = filter (\<lambda>x. \<forall>s \<in> set ss. s [x] = [x]) xs"
proof (induction ss arbitrary: xs)
  case Nil
  then show ?case by simp
next
  case (Cons s ss)
  then obtain P where P: "s = filter P" by auto
  have "fold (\<lambda>s. s) (s # ss) xs = filter (\<lambda>x. \<forall>s \<in> set ss. s [x] = [x]) (filter P xs)"
    using Cons P by simp
  also have "\<dots> = filter (\<lambda>x. \<forall>s \<in> set (s # ss). s [x] = [x]) xs"
    by (auto simp: P intro!: filter_cong)
  finally show ?case .
qed

lemma keeps_stages: "keeps needle f p = (\<forall>s \<in> set (filterStages needle f). s [p] = [p])"
  by (simp add: keeps_def filterStages_def stage_forms)

lemma any_order:
  assumes "mset ss = mset (filterStages needle f)"
  shows "fold (\<lambda>s. s) ss xs = filter (keeps needle f) xs"
proof -
  have s: "set ss = set (filterStages needle f)"
    using assms by (metis set_mset_mset)
  then have "\<forall>s \<in> set ss. \<exists>P. s = filter P"
    using stages_are_filters by blast
  then have "fold (\<lambda>s. s) ss xs = filter (\<lambda>x. \<forall>s \<in> set ss. s [x] = [x]) xs"
    by (rule fold_filters)
  also have "\<dots> = filter (keeps needle f) xs"
    unfolding s keeps_stages ..
  finally show ?thesis .
qed

lemma applyFilters_eq:
  "filteredProducts (applyFilters lc st) =
     sort_js (sortCompare lc (sortBy st))
       (filter (keeps (searchTerm st) (filters st)) (shop.products st))"
proof -
  have "stockFilter (filters st) (priceFilter (filters st) (brandFilter (filters st)
          (categoryFilter (filters st) (searchFilter (searchTerm st) (shop.products st)))))
        = filter (keeps (searchTerm st) (filters st)) (shop.products st)"
    unfolding stage_forms filter_filter
    by (rule filter_cong) (auto simp: keeps_def)
  then show ?thesis by (simp add: applyFilters_def Let_def)
qed

subsection \<open>The sort keeps every product and moves one only behind a smaller one\<close>

lemma set_insert_sorted: "set (insert_sorted cmp x ys) = insert x (set ys)"
  by (induction ys) auto

lemma set_sort_js: "set (sort_js cmp xs) = set xs"
  by (induction xs) (auto simp: set_insert_sorted)

lemma filter_insert_sorted_neg: "\<not> P x \<Longrightarrow> filter P (insert_sorted cmp x ys) = filter P ys"
  by (induction ys) auto

lemma filter_insert_sorted_pos:
  "P x \<Longrightarrow> (\<forall>y \<in> set ys. P y \<longrightarrow> cmp x y \<le> 0) \<Longrightarrow>
   filter P (insert_sorted cmp x ys) = x # filter P ys"
  by (induction ys) auto

lemma sort_js_stable:
  assumes "\<forall>x y. P x \<longrightarrow> P y \<longrightarrow> cmp x y \<le> 0"
  shows "filter P (sort_js cmp xs) = filter P xs"
proof (induction xs)
  case Nil
  show ?case by simp
next
  case (Cons x xs)
  show ?case
  proof (cases "P x")
    case True
    have "\<forall>y \<in> set (sort_js cmp xs). P y \<longrightarrow> cmp x y \<le> 0"
      using assms True by blast
    with True have "filter P (insert_sorted cmp x (sort_js cmp xs)) = x # filter P (sort_js cmp xs)"
      by (rule filter_insert_sorted_pos)
    then show ?thesis using True Cons.IH by simp
  next
    case False
    then show ?thesis using Cons.IH by (simp add: filter_insert_sorted_neg)
  qed
qed

lemmas shop_defs = applyFilters_def Shop_init_def clearFilters_def scarf_def coat_def jacket_def
  searchFilter_def categoryFilter_def brandFilter_def priceFilter_def stockFilter_def
  sortCompare_def orZero_def keeps_def filterStages_def

subsection \<open>Claims\<close>

text \<open>
  C7. The five filters compose conjunctively and commute. Any two of them give the same
  list in either order, in particular the category filter and the price filter; applied
  in any order at all, they leave exactly the products that every one of them keeps, in
  the order of the input; \<^verbatim>\<open>applyFilters\<close> sorts that list as its last step.
\<close>

theorem filters_commute:
  "(\<forall>s1 \<in> set (filterStages needle f). \<forall>s2 \<in> set (filterStages needle f).
      s1 (s2 xs) = s2 (s1 xs))
   \<and> categoryFilter f (priceFilter f xs) = priceFilter f (categoryFilter f xs)
   \<and> (mset ss = mset (filterStages needle f) \<longrightarrow> fold (\<lambda>s. s) ss xs = filter (keeps needle f) xs)
   \<and> filteredProducts (applyFilters lc st) =
       sort_js (sortCompare lc (sortBy st))
         (filter (keeps (searchTerm st) (filters st)) (shop.products st))"
proof (intro conjI ballI impI)
  fix s1 s2
  assume "s1 \<in> set (filterStages needle f)" "s2 \<in> set (filterStages needle f)"
  then show "s1 (s2 xs) = s2 (s1 xs)" by (rule stages_commute)
next
  show "categoryFilter f (priceFilter f xs) = priceFilter f (categoryFilter f xs)"
    by (rule stages_commute [where needle = needle and f = f]) (simp_all add: filterStages_def)
next
  assume "mset ss = mset (filterStages needle f)"
  then show "fold (\<lambda>s. s) ss xs = filter (keeps needle f) xs" by (rule any_order)
next
  show "filteredProducts (applyFilters lc st) =
       sort_js (sortCompare lc (sortBy st))
         (filter (keeps (searchTerm st) (filters st)) (shop.products st))"
    by (rule applyFilters_eq)
qed

theorem filters_commute_witness:
  "categoryFilter \<lparr>categories = [''outerwear''], brands = [], priceRange = Some (0, 1000),
                   inStock = True\<rparr> \<in> set (filterStages [] \<lparr>categories = [''outerwear''], brands = [], priceRange = Some (0, 1000),
                   inStock = True\<rparr>)
   \<and> mset (rev (filterStages [] \<lparr>categories = [''outerwear''], brands = [],
                   priceRange = Some (0, 1000), inStock = True\<rparr>))
       = mset (filterStages [] \<lparr>categories = [''outerwear''], brands = [],
                   priceRange = Some (0, 1000), inStock = True\<rparr>)
   \<and> fold (\<lambda>s. s)
        (rev (filterStages [] \<lparr>categories = [''outerwear''], brands = [],
                   priceRange = Some (0, 1000), inStock = True\<rparr>))
        [scarf, coat, jacket] = [jacket]
   \<and> categoryFilter \<lparr>categories = [''outerwear''], brands = [], priceRange = Some (0, 1000),
                      inStock = True\<rparr>
        (priceFilter \<lparr>categories = [''outerwear''], brands = [], priceRange = Some (0, 1000),
                      inStock = True\<rparr> [scarf, coat, jacket]) = [jacket]"
proof -
  let ?f = "\<lparr>categories = [''outerwear''], brands = [], priceRange = Some (0, 1000),
             inStock = True\<rparr>"
  have m: "mset (rev (filterStages [] ?f)) = mset (filterStages [] ?f)" by simp
  have k: "filter (keeps [] ?f) [scarf, coat, jacket] = [jacket]"
    by (simp add: shop_defs)
  have c: "categoryFilter ?f \<in> set (filterStages [] ?f)" by (simp add: filterStages_def)
  have p: "priceFilter ?f [scarf, coat, jacket] = [scarf, jacket]" by (simp add: shop_defs)
  have q: "categoryFilter ?f [scarf, jacket] = [jacket]" by (simp add: shop_defs)
  from filters_commute [of "[]" ?f "[scarf, coat, jacket]" "rev (filterStages [] ?f)"] m k c p q
  show ?thesis by simp
qed

text \<open>
  C8. The sort is stable for every sort key. Take any class of products that the
  comparator of the current key ranks equal pairwise: the sorted result lists the
  members of the class in the order in which they pass the filters. For the key
  \<^verbatim>\<open>rating\<close> the products of one rating, a missing rating counting as 0, form such a class.
\<close>

theorem sort_stable:
  "((\<forall>x y. P x \<longrightarrow> P y \<longrightarrow> sortCompare lc (sortBy st) x y = 0) \<longrightarrow>
      filter P (filteredProducts (applyFilters lc st))
        = filter P (filter (keeps (searchTerm st) (filters st)) (shop.products st)))
   \<and> (sortBy st = ''rating'' \<longrightarrow>
      filter (\<lambda>p. orZero (rating p) = r) (filteredProducts (applyFilters lc st))
        = filter (\<lambda>p. orZero (rating p) = r)
            (filter (keeps (searchTerm st) (filters st)) (shop.products st)))"
proof (intro conjI impI)
  assume "\<forall>x y. P x \<longrightarrow> P y \<longrightarrow> sortCompare lc (sortBy st) x y = 0"
  then have "\<forall>x y. P x \<longrightarrow> P y \<longrightarrow> sortCompare lc (sortBy st) x y \<le> 0" by simp
  then show "filter P (filteredProducts (applyFilters lc st))
        = filter P (filter (keeps (searchTerm st) (filters st)) (shop.products st))"
    unfolding applyFilters_eq by (rule sort_js_stable)
next
  assume "sortBy st = ''rating''"
  then have "\<forall>x y. orZero (rating x) = r \<longrightarrow> orZero (rating y) = r \<longrightarrow>
               sortCompare lc (sortBy st) x y \<le> 0"
    by (simp add: sortCompare_def)
  then show "filter (\<lambda>p. orZero (rating p) = r) (filteredProducts (applyFilters lc st))
        = filter (\<lambda>p. orZero (rating p) = r)
            (filter (keeps (searchTerm st) (filters st)) (shop.products st))"
    unfolding applyFilters_eq by (rule sort_js_stable)
qed

theorem sort_stable_witness:
  "sortBy (Shop_init\<lparr>shop.products := [scarf, jacket, coat], sortBy := ''rating''\<rparr>) = ''rating''
   \<and> filter (\<lambda>p. orZero (rating p) = 0)
       (filteredProducts
          (applyFilters (\<lambda>a b. 0)
             (Shop_init\<lparr>shop.products := [scarf, jacket, coat], sortBy := ''rating'',
                        filters := (filters Shop_init)\<lparr>priceRange := None\<rparr>\<rparr>)))
     = [scarf, coat]
   \<and> filteredProducts
          (applyFilters (\<lambda>a b. 0)
             (Shop_init\<lparr>shop.products := [scarf, jacket, coat], sortBy := ''rating'',
                        filters := (filters Shop_init)\<lparr>priceRange := None\<rparr>\<rparr>))
     = [jacket, scarf, coat]"
proof -
  let ?st = "Shop_init\<lparr>shop.products := [scarf, jacket, coat], sortBy := ''rating'',
                        filters := (filters Shop_init)\<lparr>priceRange := None\<rparr>\<rparr>"
  have s: "sortBy ?st = ''rating''" by simp
  have k: "filter (\<lambda>p. orZero (rating p) = 0)
             (filter (keeps (searchTerm ?st) (filters ?st)) (shop.products ?st)) = [scarf, coat]"
    by (simp add: shop_defs)
  have e: "filteredProducts (applyFilters (\<lambda>a b. 0) ?st) = [jacket, scarf, coat]"
    by (simp add: shop_defs)
  have c: "\<forall>x y. orZero (rating x) = 0 \<longrightarrow> orZero (rating y) = 0 \<longrightarrow>
             sortCompare (\<lambda>a b. 0) (sortBy ?st) x y = 0"
    by (simp add: sortCompare_def)
  from sort_stable [of "\<lambda>p. orZero (rating p) = 0" "\<lambda>a b. 0" ?st 0] c s k e
  show ?thesis by simp
qed

text \<open>
  C9. The price filter is inclusive at both ends: with the range \<open>[lo, hi]\<close> it keeps
  exactly the products whose price lies between \<open>lo\<close> and \<open>hi\<close>, both included, so a
  product priced \<open>lo\<close> or \<open>hi\<close> is kept whenever \<open>lo \<le> hi\<close>.
\<close>

theorem price_inclusive:
  assumes "priceRange f = Some (lo, hi)"
  shows "(p \<in> set (priceFilter f ps) \<longleftrightarrow> p \<in> set ps \<and> lo \<le> price p \<and> price p \<le> hi)
       \<and> (lo \<le> hi \<longrightarrow> p \<in> set ps \<longrightarrow> price p = lo \<or> price p = hi \<longrightarrow>
            p \<in> set (priceFilter f ps))"
  using assms by (auto simp: priceFilter_def)

theorem price_inclusive_witness:
  "priceRange (filters Shop_init) = Some (0, 1000) \<and> price scarf = 1000
   \<and> scarf \<in> set [coat, scarf]
   \<and> scarf \<in> set (priceFilter (filters Shop_init) [coat, scarf])
   \<and> coat \<notin> set (priceFilter (filters Shop_init) [coat, scarf])"
proof -
  have h: "priceRange (filters Shop_init) = Some (0, 1000)" by (simp add: Shop_init_def)
  have p: "price scarf = 1000" "price coat = 1200" "scarf \<in> set [coat, scarf]"
    by (simp_all add: scarf_def coat_def)
  from price_inclusive [OF h, of scarf "[coat, scarf]"] price_inclusive [OF h, of coat "[coat, scarf]"]
    h p show ?thesis by simp
qed

text \<open>
  C10. The initial filters and the filters that \<^verbatim>\<open>clearFilters\<close> restores both carry the
  price range \<open>[0, 1000]\<close>, and under that range no product priced above 1000 is among
  the filtered products, whatever the other filters, the search needle and the sort key.
\<close>

theorem default_price_range:
  "filters Shop_init =
     \<lparr>categories = [], brands = [], priceRange = Some (0, 1000), inStock = False\<rparr>
   \<and> filters (clearFilters st) =
     \<lparr>categories = [], brands = [], priceRange = Some (0, 1000), inStock = False\<rparr>
   \<and> searchTerm (clearFilters st) = []
   \<and> (priceRange (filters st) = Some (0, 1000) \<longrightarrow>
        (\<forall>p \<in> set (shop.products st). price p > 1000 \<longrightarrow>
           p \<notin> set (filteredProducts (applyFilters lc st))))"
proof (intro conjI impI ballI)
  show "filters Shop_init =
     \<lparr>categories = [], brands = [], priceRange = Some (0, 1000), inStock = False\<rparr>"
    by (simp add: Shop_init_def)
  show "filters (clearFilters st) =
     \<lparr>categories = [], brands = [], priceRange = Some (0, 1000), inStock = False\<rparr>"
    by (simp add: clearFilters_def)
  show "searchTerm (clearFilters st) = []"
    by (simp add: clearFilters_def)
next
  fix p :: product
  assume range: "priceRange (filters st) = Some (0, 1000)" and high: "price p > 1000"
  then have "\<not> keeps (searchTerm st) (filters st) p"
    by (simp add: keeps_def)
  then show "p \<notin> set (filteredProducts (applyFilters lc st))"
    by (simp add: applyFilters_eq set_sort_js)
qed

theorem default_price_range_witness:
  "priceRange (filters (Shop_init\<lparr>shop.products := [scarf, coat, jacket]\<rparr>)) = Some (0, 1000)
   \<and> coat \<in> set (shop.products (Shop_init\<lparr>shop.products := [scarf, coat, jacket]\<rparr>))
   \<and> price coat > 1000
   \<and> coat \<notin> set (filteredProducts
                   (applyFilters (\<lambda>a b. 0) (Shop_init\<lparr>shop.products := [scarf, coat, jacket]\<rparr>)))"
proof -
  let ?st = "Shop_init\<lparr>shop.products := [scarf, coat, jacket]\<rparr>"
  have h: "priceRange (filters ?st) = Some (0, 1000)" by (simp add: Shop_init_def)
  have c: "coat \<in> set (shop.products ?st)" "price coat > 1000" by (simp_all add: coat_def)
  from default_price_range [of ?st "\<lambda>a b. 0"] h c show ?thesis by blast
qed

section \<open>Properties of the cart operations\<close>

subsection \<open>Totals\<close>

lemma foldl_plus: "foldl (\<lambda>total x. total + g x) a xs = a + sum_list (map g xs)"
  for a :: real
  by (induction xs arbitrary: a) (auto simp: algebra_simps)

lemma sum_list_resolved:
  "(\<forall>x \<in> set xs. \<not> P x \<longrightarrow> g x = 0) \<Longrightarrow> sum_list (map g (filter P xs)) = sum_list (map g xs)"
  for g :: "'a \<Rightarrow> real"
  by (induction xs) auto

text \<open>
  C4. The totals depend on the lines and the product map only. The subtotal is the sum
  of price times quantity over the lines whose product is in the map (a line whose product
  is missing adds nothing), the tax is the subtotal times 0.08, and the total is the
  subtotal plus the tax.
\<close>

theorem cart_totals:
  "getSubtotal st =
     (\<Sum>item\<leftarrow>filter (\<lambda>item. products st (product_id item) \<noteq> None) (cartItems st).
        price (the (products st (product_id item))) * of_int (quantity item))
   \<and> getTax st = getSubtotal st * 0.08
   \<and> getTotal st = getSubtotal st + getTax st
   \<and> (cartItems st' = cartItems st \<and> products st' = products st \<longrightarrow>
        getSubtotal st' = getSubtotal st \<and> getTax st' = getTax st \<and> getTotal st' = getTotal st)"
proof -
  let ?g = "\<lambda>item. case products st (product_id item) of
                      Some product \<Rightarrow> price product * of_int (quantity item) | None \<Rightarrow> 0"
  let ?P = "\<lambda>item. products st (product_id item) \<noteq> None"
  have "getSubtotal st = sum_list (map ?g (cartItems st))"
    by (simp add: getSubtotal_def foldl_plus)
  also have "\<dots> = sum_list (map ?g (filter ?P (cartItems st)))"
    by (rule sum_list_resolved [symmetric]) auto
  also have "\<dots> = (\<Sum>item\<leftarrow>filter ?P (cartItems st).
        price (the (products st (product_id item))) * of_int (quantity item))"
    by (rule arg_cong [where f = sum_list], rule map_cong) auto
  finally show ?thesis by (simp add: getTax_def getTotal_def getSubtotal_def)
qed

lemmas load_defs = loadCartItems_def loadFailed_def Let_def getLocalCart_def cart_page_def
  CartItem_filter_def Product_filter_def product_info.truncate_def
  scarf_def coat_def jacket_def remoteA_def guestA_def ann_def

theorem cart_totals_witness:
  "cartItems (loadCartItems True True
     ((cart_page [remoteA, \<lparr>product_id = 9, quantity = 4, item_id = 8,
                            user_email = Some ''ann@example.com''\<rparr>] None)\<lparr>user := Some ann\<rparr>))
     = [remoteA, \<lparr>product_id = 9, quantity = 4, item_id = 8,
                  user_email = Some ''ann@example.com''\<rparr>]
   \<and> getSubtotal (loadCartItems True True
     ((cart_page [remoteA, \<lparr>product_id = 9, quantity = 4, item_id = 8,
                            user_email = Some ''ann@example.com''\<rparr>] None)\<lparr>user := Some ann\<rparr>))
     = 3000
   \<and> getTotal (loadCartItems True True
     ((cart_page [remoteA, \<lparr>product_id = 9, quantity = 4, item_id = 8,
                            user_email = Some ''ann@example.com''\<rparr>] None)\<lparr>user := Some ann\<rparr>))
     = 3240"
proof -
  let ?st = "loadCartItems True True
     ((cart_page [remoteA, \<lparr>product_id = 9, quantity = 4, item_id = 8,
                            user_email = Some ''ann@example.com''\<rparr>] None)\<lparr>user := Some ann\<rparr>)"
  have c: "cartItems ?st = [remoteA, \<lparr>product_id = 9, quantity = 4, item_id = 8,
                  user_email = Some ''ann@example.com''\<rparr>]"
    by (simp add: load_defs)
  have p: "products ?st (product_id remoteA) = Some (product_info.truncate scarf)"
    "products ?st 9 = None"
    by (simp_all add: load_defs)
  have q: "price (product_info.truncate scarf) = 1000" "quantity remoteA = 3"
    by (simp_all add: load_defs)
  have "(\<Sum>item\<leftarrow>filter (\<lambda>item. products ?st (product_id item) \<noteq> None) (cartItems ?st).
           price (the (products ?st (product_id item))) * of_int (quantity item)) = 3000"
    unfolding c by (simp add: p q)
  with cart_totals [of ?st ?st] have "getSubtotal ?st = 3000" "getTax ?st = 3000 * 0.08"
    "getTotal ?st = 3000 + getTax ?st"
    by simp_all
  with c show ?thesis by simp
qed

subsection \<open>Adding to the cart\<close>

lemma fresh_id_gt: "item \<in> set lines \<Longrightarrow> item_id item < fresh_id lines"
proof -
  have "\<And>a. fold max xs a \<ge> a \<and> (\<forall>x \<in> set xs. x \<le> fold max xs a)" for xs :: "nat list"
  proof (induction xs)
    case Nil
    show ?case by simp
  next
    case (Cons x xs)
    have "max x a \<le> fold max xs (max x a)" using Cons.IH by blast
    then show ?case using Cons.IH [of "max x a"] by auto
  qed
  then have "\<forall>x \<in> set (map item_id lines). x \<le> fold max (map item_id lines) 0" by blast
  then show "item \<in> set lines \<Longrightarrow> item_id item < fresh_id lines"
    by (auto simp: fresh_id_def less_Suc_eq_le)
qed

lemma fresh_id_notin: "fresh_id lines \<notin> item_id ` set lines"
  using fresh_id_gt by fastforce

lemma add_anonymous:
  assumes "shop.user st = None"
  shows "getLocalCart (handleAddToCart st p a b w) =
     (case findIndex (\<lambda>item. product_id item = id' p) (getLocalCart w) of
        Some i \<Rightarrow> (getLocalCart w)
          [i := (getLocalCart w ! i)\<lparr>quantity := quantity (getLocalCart w ! i) + 1\<rparr>]
      | None \<Rightarrow> getLocalCart w @
          [\<lparr>product_id = id' p, quantity = 1, local_item.name = name p,
            local_item.price = price p, local_item.image_url = image_url p,
            local_item.brand = brand p\<rparr>])"
  using assms by (auto simp: handleAddToCart_def Let_def getLocalCart_def split: option.splits)

lemma add_logged_in:
  assumes "shop.user st = Some u"
  shows "db (handleAddToCart st p True True w) =
     (case CartItem_filter (email u) (Some (id' p)) (db w) of
        existingItem # _ \<Rightarrow>
          map (\<lambda>item. if item_id item = item_id existingItem
                       then item\<lparr>quantity := quantity existingItem + 1\<rparr> else item) (db w)
      | [] \<Rightarrow> db w @ [\<lparr>product_id = id' p, quantity = 1, item_id = fresh_id (db w),
                       user_email = Some (email u)\<rparr>])"
proof -
  have in_db: "existingItem \<in> set (db w)"
    if "CartItem_filter (email u) (Some (id' p)) (db w) = existingItem # rest"
    for existingItem rest
  proof -
    have "existingItem \<in> set (CartItem_filter (email u) (Some (id' p)) (db w))"
      using that by simp
    then show ?thesis by (simp add: CartItem_filter_def)
  qed
  show ?thesis
    using assms in_db
    by (auto simp: handleAddToCart_def Let_def CartItem_update_def CartItem_create_def
             split: list.splits)
qed

text \<open>
  C5. \<^verbatim>\<open>handleAddToCart\<close> adds 1 to the line of the product when there is one (the first
  one found) and otherwise creates a line with quantity 1; called twice in a row for the
  same product on an empty cart it leaves one line with quantity 2, for a guest (whatever
  the remote side answers) and for a logged-in user whose remote calls succeed.
\<close>

theorem addToCart_twice:
  "(shop.user st = None \<longrightarrow> getLocalCart w = [] \<longrightarrow>
      getLocalCart (handleAddToCart st p a2 b2 (handleAddToCart st p a1 b1 w)) =
        [\<lparr>product_id = id' p, quantity = 2, local_item.name = name p,
          local_item.price = price p, local_item.image_url = image_url p,
          local_item.brand = brand p\<rparr>])
   \<and> (shop.user st = Some u \<longrightarrow> CartItem_filter (email u) None (db w) = [] \<longrightarrow>
      CartItem_filter (email u) None
        (db (handleAddToCart st p True True (handleAddToCart st p True True w))) =
        [\<lparr>product_id = id' p, quantity = 2, item_id = fresh_id (db w),
          user_email = Some (email u)\<rparr>])
   \<and> (shop.user st = None \<longrightarrow>
      getLocalCart (handleAddToCart st p a1 b1 w) =
        (case findIndex (\<lambda>item. product_id item = id' p) (getLocalCart w) of
           Some i \<Rightarrow> (getLocalCart w)
             [i := (getLocalCart w ! i)\<lparr>quantity := quantity (getLocalCart w ! i) + 1\<rparr>]
         | None \<Rightarrow> getLocalCart w @
             [\<lparr>product_id = id' p, quantity = 1, local_item.name = name p,
               local_item.price = price p, local_item.image_url = image_url p,
               local_item.brand = brand p\<rparr>]))
   \<and> (shop.user st = Some u \<longrightarrow>
      db (handleAddToCart st p True True w) =
        (case CartItem_filter (email u) (Some (id' p)) (db w) of
           existingItem # _ \<Rightarrow>
             map (\<lambda>item. if item_id item = item_id existingItem
                          then item\<lparr>quantity := quantity existingItem + 1\<rparr> else item) (db w)
         | [] \<Rightarrow> db w @ [\<lparr>product_id = id' p, quantity = 1, item_id = fresh_id (db w),
                          user_email = Some (email u)\<rparr>]))"
proof (intro conjI impI)
  assume anon: "shop.user st = None" and empty: "getLocalCart w = []"
  let ?w1 = "handleAddToCart st p a1 b1 w"
  have "getLocalCart ?w1 = [\<lparr>product_id = id' p, quantity = 1, local_item.name = name p,
          local_item.price = price p, local_item.image_url = image_url p,
          local_item.brand = brand p\<rparr>]"
    by (simp add: add_anonymous [OF anon] empty)
  then show "getLocalCart (handleAddToCart st p a2 b2 ?w1) =
        [\<lparr>product_id = id' p, quantity = 2, local_item.name = name p,
          local_item.price = price p, local_item.image_url = image_url p,
          local_item.brand = brand p\<rparr>]"
    by (simp add: add_anonymous [OF anon])
next
  assume u: "shop.user st = Some u" and empty: "CartItem_filter (email u) None (db w) = []"
  let ?n = "\<lparr>product_id = id' p, quantity = 1, item_id = fresh_id (db w),
             user_email = Some (email u)\<rparr>"
  let ?w1 = "handleAddToCart st p True True w"
  have none: "\<forall>item \<in> set (db w). user_email item \<noteq> Some (email u)"
    using empty by (auto simp: CartItem_filter_def filter_empty_conv)
  then have "CartItem_filter (email u) (Some (id' p)) (db w) = []"
    by (auto simp: CartItem_filter_def filter_empty_conv)
  then have db1: "db ?w1 = db w @ [?n]"
    by (simp add: add_logged_in [OF u])
  have "filter (\<lambda>item. user_email item = Some (email u) \<and> product_id item = id' p) (db w) = []"
    using none by (auto simp: filter_empty_conv)
  then have f1: "CartItem_filter (email u) (Some (id' p)) (db ?w1) = [?n]"
    by (simp add: db1 CartItem_filter_def)
  have "map (\<lambda>item. if item_id item = fresh_id (db w) then g item else item) (db w) = db w"
    for g
    using fresh_id_gt by (intro map_idI) fastforce
  then have db2: "db (handleAddToCart st p True True ?w1) = db w @ [?n\<lparr>quantity := 2\<rparr>]"
    unfolding add_logged_in [OF u, of p ?w1] f1 by (simp add: db1)
  have "filter (\<lambda>item. user_email item = Some (email u)) (db w) = []"
    using none by (auto simp: filter_empty_conv)
  then show "CartItem_filter (email u) None (db (handleAddToCart st p True True ?w1)) =
        [\<lparr>product_id = id' p, quantity = 2, item_id = fresh_id (db w),
          user_email = Some (email u)\<rparr>]"
    by (simp add: db2 CartItem_filter_def)
next
  assume "shop.user st = None"
  then show "getLocalCart (handleAddToCart st p a1 b1 w) =
        (case findIndex (\<lambda>item. product_id item = id' p) (getLocalCart w) of
           Some i \<Rightarrow> (getLocalCart w)
             [i := (getLocalCart w ! i)\<lparr>quantity := quantity (getLocalCart w ! i) + 1\<rparr>]
         | None \<Rightarrow> getLocalCart w @
             [\<lparr>product_id = id' p, quantity = 1, local_item.name = name p,
               local_item.price = price p, local_item.image_url = image_url p,
               local_item.brand = brand p\<rparr>])"
    by (rule add_anonymous)
next
  assume "shop.user st = Some u"
  then show "db (handleAddToCart st p True True w) =
        (case CartItem_filter (email u) (Some (id' p)) (db w) of
           existingItem # _ \<Rightarrow>
             map (\<lambda>item. if item_id item = item_id existingItem
                          then item\<lparr>quantity := quantity existingItem + 1\<rparr> else item) (db w)
         | [] \<Rightarrow> db w @ [\<lparr>product_id = id' p, quantity = 1, item_id = fresh_id (db w),
                          user_email = Some (email u)\<rparr>])"
    by (rule add_logged_in)
qed

theorem addToCart_twice_witness:
  "shop.user Shop_init = None \<and> getLocalCart (shop_world []) = []
   \<and> getLocalCart (handleAddToCart Shop_init scarf True True
        (handleAddToCart Shop_init scarf True True (shop_world []))) = [guestA]
   \<and> shop.user (Shop_init\<lparr>shop.user := Some ann\<rparr>) = Some ann
   \<and> CartItem_filter (email ann) None (db (shop_world [])) = []
   \<and> CartItem_filter (email ann) None
        (db (handleAddToCart (Shop_init\<lparr>shop.user := Some ann\<rparr>) scarf True True
              (handleAddToCart (Shop_init\<lparr>shop.user := Some ann\<rparr>) scarf True True
                 (shop_world [])))) =
        [\<lparr>product_id = 1, quantity = 2, item_id = 1, user_email = Some ''ann@example.com''\<rparr>]"
proof -
  have a: "shop.user Shop_init = None" "getLocalCart (shop_world []) = []"
    by (simp_all add: Shop_init_def shop_world_def getLocalCart_def)
  have b: "shop.user (Shop_init\<lparr>shop.user := Some ann\<rparr>) = Some ann"
    "CartItem_filter (email ann) None (db (shop_world [])) = []"
    by (simp_all add: shop_world_def CartItem_filter_def)
  have c: "id' scarf = 1" "name scarf = ''Silk Scarf''" "price scarf = 1000"
    "image_url scarf = ''scarf.png''" "brand scarf = Some ''Luxe''"
    "fresh_id (db (shop_world [])) = 1" "email ann = ''ann@example.com''"
    by (simp_all add: scarf_def shop_world_def fresh_id_def ann_def)
  from addToCart_twice [of Shop_init "shop_world []" scarf True True True True]
    addToCart_twice [of "Shop_init\<lparr>shop.user := Some ann\<rparr>" "shop_world []" scarf _ _ _ _ ann]
    a b
  show ?thesis by (simp add: c guestA_def)
qed

subsection \<open>Changing and removing lines\<close>

lemma loadCartItems_frame:
  "db (loadCartItems a b st) = db st"
  "anonymousCart (loadCartItems a b st) = anonymousCart st"
  "events (loadCartItems a b st) = events st"
  "catalog (loadCartItems a b st) = catalog st"
  by (auto simp: loadCartItems_def loadFailed_def Let_def split: option.splits)

lemma loadCartItems_guest_quiet:
  "user st = None \<Longrightarrow>
   toasts (loadCartItems a b st) = toasts st \<and> console (loadCartItems a b st) = console st"
  by (auto simp: loadCartItems_def Let_def getLocalCart_def split: option.splits)

lemma find_None_image: "find (\<lambda>item. f item = k) xs = None \<longleftrightarrow> k \<notin> f ` set xs"
  by (auto simp: find_None_iff)

text \<open>
  C6. \<^verbatim>\<open>updateQuantity\<close> with a quantity below 1 (0 and -1 in particular) returns at once
  and changes nothing at all. With a product that has no line (among the lines the page
  holds for a logged-in user, in the guest cart for a guest), \<^verbatim>\<open>updateQuantity\<close> and
  \<^verbatim>\<open>removeItem\<close> leave the cart as it is and report no error: for a logged-in user
  neither the store, the guest cart, the lines shown, the toasts, the error log nor the
  events change; for a guest the lines of the guest cart and the store are unchanged,
  nothing is logged and no toast added is an error toast (the guest branch still rewrites
  the same lines, reloads and notifies).
\<close>

theorem boundary_noops:
  "updateQuantity p 0 a b c st = st
   \<and> updateQuantity p (- 1) a b c st = st
   \<and> (q < 1 \<longrightarrow> updateQuantity p q a b c st = st)
   \<and> (user st \<noteq> None \<longrightarrow> p \<notin> product_id ` set (cartItems st) \<longrightarrow>
        (\<forall>st' \<in> {updateQuantity p q a b c st, removeItem p a b c st}.
           db st' = db st \<and> anonymousCart st' = anonymousCart st \<and> cartItems st' = cartItems st
           \<and> toasts st' = toasts st \<and> console st' = console st \<and> events st' = events st))
   \<and> (user st = None \<longrightarrow> p \<notin> product_id ` set (getLocalCart st) \<longrightarrow>
        (\<forall>st' \<in> {updateQuantity p q a b c st, removeItem p a b c st}.
           getLocalCart st' = getLocalCart st \<and> db st' = db st \<and> console st' = console st
           \<and> list_all (\<lambda>t. case t of Toast _ _ destructive \<Rightarrow> \<not> destructive)
                (drop (length (toasts st)) (toasts st'))))"
proof -
  have A: "updateQuantity p 0 a b c st = st" and B: "updateQuantity p (- 1) a b c st = st"
    by (simp_all add: updateQuantity_def)
  have C: "q < 1 \<longrightarrow> updateQuantity p q a b c st = st"
    by (simp add: updateQuantity_def)
  have D: "user st \<noteq> None \<longrightarrow> p \<notin> product_id ` set (cartItems st) \<longrightarrow>
        (\<forall>st' \<in> {updateQuantity p q a b c st, removeItem p a b c st}.
           db st' = db st \<and> anonymousCart st' = anonymousCart st \<and> cartItems st' = cartItems st
           \<and> toasts st' = toasts st \<and> console st' = console st \<and> events st' = events st)"
  proof (intro impI ballI)
    fix st'
    assume u: "user st \<noteq> None" and miss: "p \<notin> product_id ` set (cartItems st)"
      and st': "st' \<in> {updateQuantity p q a b c st, removeItem p a b c st}"
    from miss have f: "find (\<lambda>item. product_id item = p) (cartItems st) = None"
      by (simp add: find_None_image)
    from u obtain v where v: "user st = Some v" by auto
    have "updateQuantity p q a b c st = st
          \<or> updateQuantity p q a b c st = st\<lparr>updating := (updating st)(p \<mapsto> False)\<rparr>"
      by (simp add: updateQuantity_def Let_def v f)
    moreover have "removeItem p a b c st = st\<lparr>updating := (updating st)(p \<mapsto> False)\<rparr>"
      by (simp add: removeItem_def Let_def v f)
    ultimately show "db st' = db st \<and> anonymousCart st' = anonymousCart st
           \<and> cartItems st' = cartItems st
           \<and> toasts st' = toasts st \<and> console st' = console st \<and> events st' = events st"
      using st' by auto
  qed
  have E: "user st = None \<longrightarrow> p \<notin> product_id ` set (getLocalCart st) \<longrightarrow>
        (\<forall>st' \<in> {updateQuantity p q a b c st, removeItem p a b c st}.
           getLocalCart st' = getLocalCart st \<and> db st' = db st \<and> console st' = console st
           \<and> list_all (\<lambda>t. case t of Toast _ _ destructive \<Rightarrow> \<not> destructive)
                (drop (length (toasts st)) (toasts st')))"
  proof (intro impI ballI)
    fix st'
    assume u: "user st = None" and miss: "p \<notin> product_id ` set (getLocalCart st)"
      and st': "st' \<in> {updateQuantity p q a b c st, removeItem p a b c st}"
    have same1: "map (\<lambda>item. if product_id item = p then item\<lparr>quantity := q\<rparr> else item)
                   (getLocalCart st) = getLocalCart st"
      using miss by (intro map_idI) auto
    have same2: "filter (\<lambda>item. product_id item \<noteq> p) (getLocalCart st) = getLocalCart st"
      using miss by (auto simp: filter_id_conv)
    have g: "getLocalCart (s\<lparr>updating := m\<rparr>) = getLocalCart s"
            "getLocalCart (s\<lparr>events := e\<rparr>) = getLocalCart s"
            "getLocalCart (s\<lparr>toasts := t\<rparr>) = getLocalCart s"
            "getLocalCart (loadCartItems a' b' s) = getLocalCart s"
            "getLocalCart (s\<lparr>anonymousCart := Some xs\<rparr>) = xs" for s :: cart and m e t a' b' xs
      by (simp_all add: getLocalCart_def loadCartItems_frame)
    have upd: "getLocalCart (updateQuantity p q a b c st) = getLocalCart st
             \<and> db (updateQuantity p q a b c st) = db st
             \<and> console (updateQuantity p q a b c st) = console st
             \<and> toasts (updateQuantity p q a b c st) = toasts st"
      by (simp add: updateQuantity_def Let_def u g same1 loadCartItems_frame
            loadCartItems_guest_quiet)
    have rem: "getLocalCart (removeItem p a b c st) = getLocalCart st
             \<and> db (removeItem p a b c st) = db st
             \<and> console (removeItem p a b c st) = console st
             \<and> toasts (removeItem p a b c st) =
                 toasts st @ [Toast ''Item removed'' ''Item has been removed from your cart'' False]"
      by (simp add: removeItem_def Let_def u g same2 loadCartItems_frame
            loadCartItems_guest_quiet)
    show "getLocalCart st' = getLocalCart st \<and> db st' = db st \<and> console st' = console st
           \<and> list_all (\<lambda>t. case t of Toast _ _ destructive \<Rightarrow> \<not> destructive)
                (drop (length (toasts st)) (toasts st'))"
      using st' upd rem by auto
  qed
  show ?thesis by (intro conjI) (fact A B C D E)+
qed

theorem boundary_noops_witness:
  "(0::int) < 1
   \<and> updateQuantity 1 0 True True True (cart_page [] (Some [guestA])) = cart_page [] (Some [guestA])
   \<and> user (cart_page [] (Some [guestA])) = None
   \<and> 5 \<notin> product_id ` set (getLocalCart (cart_page [] (Some [guestA])))
   \<and> getLocalCart (updateQuantity 5 3 True True True (cart_page [] (Some [guestA]))) = [guestA]
   \<and> getLocalCart (removeItem 5 True True True (cart_page [] (Some [guestA]))) = [guestA]
   \<and> user ((cart_page [remoteA] None)\<lparr>user := Some ann, cartItems := [remoteA]\<rparr>) \<noteq> None
   \<and> 5 \<notin> product_id ` set (cartItems ((cart_page [remoteA] None)\<lparr>user := Some ann, cartItems := [remoteA]\<rparr>))
   \<and> db (updateQuantity 5 3 True True True
           ((cart_page [remoteA] None)\<lparr>user := Some ann, cartItems := [remoteA]\<rparr>)) = [remoteA]
   \<and> db (removeItem 5 True True True
           ((cart_page [remoteA] None)\<lparr>user := Some ann, cartItems := [remoteA]\<rparr>)) = [remoteA]"
proof -
  let ?g = "cart_page [] (Some [guestA])"
  let ?u = "(cart_page [remoteA] None)\<lparr>user := Some ann, cartItems := [remoteA]\<rparr>"
  have g: "user ?g = None" "5 \<notin> product_id ` set (getLocalCart ?g)" "getLocalCart ?g = [guestA]"
    by (simp_all add: cart_page_def getLocalCart_def guestA_def)
  have u: "user ?u \<noteq> None" "5 \<notin> product_id ` set (cartItems ?u)" "db ?u = [remoteA]"
    by (simp_all add: cart_page_def remoteA_def)
  from boundary_noops [of 1 True True True ?g 0] have z: "updateQuantity 1 0 True True True ?g = ?g"
    by blast
  from boundary_noops [of 5 True True True ?g 3] g
  have 1: "getLocalCart (updateQuantity 5 3 True True True ?g) = [guestA]"
    "getLocalCart (removeItem 5 True True True ?g) = [guestA]"
    by simp_all
  from boundary_noops [of 5 True True True ?u 3] u
  have 2: "db (updateQuantity 5 3 True True True ?u) = [remoteA]"
    "db (removeItem 5 True True True ?u) = [remoteA]"
    by simp_all
  from z g u 1 2 show ?thesis by simp
qed

section \<open>Properties of the merge\<close>

subsection \<open>The lookup table of the remote lines\<close>

lemma fold_upd_map_of:
  "fold (\<lambda>x m. m(k x \<mapsto> v x)) xs m0 = m0 ++ map_of (rev (map (\<lambda>x. (k x, v x)) xs))"
proof (induction xs arbitrary: m0)
  case Nil
  show ?case by simp
next
  case (Cons x xs)
  let ?f = "\<lambda>x m. m(k x \<mapsto> v x)"
  let ?M = "map_of (rev (map (\<lambda>x. (k x, v x)) xs))"
  have "fold ?f (x # xs) m0 = fold ?f xs (m0(k x \<mapsto> v x))" by simp
  also have "\<dots> = m0(k x \<mapsto> v x) ++ ?M" by (rule Cons.IH)
  also have "\<dots> = m0 ++ ([k x \<mapsto> v x] ++ ?M)"
    by (rule ext) (simp add: map_add_def split: option.splits)
  also have "[k x \<mapsto> v x] ++ ?M = map_of (rev (map (\<lambda>x. (k x, v x)) (x # xs)))"
    by simp
  finally show ?case .
qed

lemma dbCartMap_map_of:
  "dbCartMap xs = map_of (rev (map (\<lambda>item. (product_id item, item)) xs))"
  by (simp add: dbCartMap_def fold_upd_map_of [where v = "\<lambda>x. x"])

lemma dbCartMap_SomeD: "dbCartMap xs p = Some d \<Longrightarrow> d \<in> set xs \<and> product_id d = p"
  unfolding dbCartMap_map_of by (auto dest!: map_of_SomeD)

lemma dbCartMap_None: "dbCartMap xs p = None \<longleftrightarrow> p \<notin> product_id ` set xs"
  unfolding dbCartMap_map_of by (force simp: map_of_eq_None_iff)

lemma dbCartMap_distinct:
  "distinct (map product_id xs) \<Longrightarrow> d \<in> set xs \<Longrightarrow> dbCartMap xs (product_id d) = Some d"
  unfolding dbCartMap_map_of
  by (rule map_of_is_SomeI) (auto simp: rev_map [symmetric] comp_def)

subsection \<open>The calls of the merge, one guest line after the other\<close>

lemma mergeLines_Cons:
  "mergeLines m e ok i (l # rest) lines =
     (fst (mergeLine m e (ok i) l lines)
        # fst (mergeLines m e ok (Suc i) rest (snd (mergeLine m e (ok i) l lines))),
      snd (mergeLines m e ok (Suc i) rest (snd (mergeLine m e (ok i) l lines))))"
  by (simp split: prod.splits)

lemma mergeLines_append:
  "mergeLines m e ok i (xs @ ys) lines =
     (fst (mergeLines m e ok i xs lines)
        @ fst (mergeLines m e ok (i + length xs) ys (snd (mergeLines m e ok i xs lines))),
      snd (mergeLines m e ok (i + length xs) ys (snd (mergeLines m e ok i xs lines))))"
proof (induction xs arbitrary: i lines)
  case Nil
  show ?case by simp
next
  case (Cons x xs)
  show ?case unfolding append_Cons mergeLines_Cons Cons.IH by simp
qed

lemma update_ids:
  "item_id ` set (snd (CartItem_update i q ok lines)) = item_id ` set lines"
proof -
  have "item_id ` (\<lambda>item. if item_id item = i then item\<lparr>quantity := q\<rparr> else item) ` set lines
        = item_id ` set lines"
    unfolding image_image by (rule image_cong) auto
  then show ?thesis by (simp add: CartItem_update_def)
qed

lemma mergeLine_ids: "item_id ` set lines \<subseteq> item_id ` set (snd (mergeLine m e ok l lines))"
proof (cases "m (product_id l)")
  case None
  then show ?thesis by (auto simp: mergeLine_def CartItem_create_def)
next
  case (Some d)
  then show ?thesis by (simp add: mergeLine_def update_ids)
qed

lemma mergeLines_ids:
  "item_id ` set lines \<subseteq> item_id ` set (snd (mergeLines m e ok i ls lines))"
proof (induction ls arbitrary: i lines)
  case Nil
  show ?case by simp
next
  case (Cons l ls)
  show ?case unfolding mergeLines_Cons snd_conv
    using mergeLine_ids [of lines m e "ok i" l] Cons.IH by blast
qed

text \<open>A call whose target, if it has one, is in the store fulfils exactly when it is served.\<close>

lemma mergeLine_fulfilled:
  "(\<forall>d. m (product_id l) = Some d \<longrightarrow> item_id d \<in> item_id ` set lines) \<Longrightarrow>
   fst (mergeLine m e ok l lines) = ok"
  by (auto simp: mergeLine_def CartItem_update_def CartItem_create_def split: option.splits)

lemma mergeLines_fulfilled:
  "(\<forall>p d. m p = Some d \<longrightarrow> item_id d \<in> item_id ` set lines) \<Longrightarrow>
   fst (mergeLines m e ok i ls lines) = map (\<lambda>j. ok (i + j)) [0 ..< length ls]"
proof (induction ls arbitrary: i lines)
  case Nil
  show ?case by simp
next
  case (Cons l ls)
  have "\<forall>p d. m p = Some d \<longrightarrow> item_id d \<in> item_id ` set (snd (mergeLine m e (ok i) l lines))"
    using Cons.prems mergeLine_ids [of lines m e "ok i" l] by blast
  from Cons.IH [OF this, of "Suc i"] Cons.prems show ?case
    unfolding mergeLines_Cons fst_conv
    by (simp add: mergeLine_fulfilled map_upt_Suc del: upt_Suc)
qed

text \<open>The calls for other products leave the lines of a product and user alone.\<close>

lemma mergeLine_frame:
  assumes "product_id l \<noteq> p"
    and "\<forall>d. m (product_id l) = Some d \<longrightarrow>
           item_id d \<notin> item_id ` set (CartItem_filter e (Some p) lines)"
  shows "CartItem_filter e (Some p) (snd (mergeLine m e ok l lines))
         = CartItem_filter e (Some p) lines"
proof (cases "m (product_id l)")
  case None
  then show ?thesis using assms(1)
    by (simp add: mergeLine_def CartItem_create_def CartItem_filter_def)
next
  case (Some d)
  let ?P = "\<lambda>item. user_email item = Some e \<and> product_id item = p"
  let ?u = "\<lambda>item. if item_id item = item_id d
                    then item\<lparr>quantity := quantity d + quantity l\<rparr> else item"
  have "filter ?P (map ?u lines) = map ?u (filter ?P lines)"
    by (induction lines) auto
  also have "\<dots> = filter ?P lines"
  proof (rule map_idI)
    fix x assume x: "x \<in> set (filter ?P lines)"
    have "CartItem_filter e (Some p) lines = filter ?P lines"
      by (simp add: CartItem_filter_def)
    with assms(2) Some x have "item_id x \<noteq> item_id d" by (metis imageI)
    then show "?u x = x" by simp
  qed
  finally show ?thesis using Some
    by (simp add: mergeLine_def CartItem_update_def CartItem_filter_def)
qed

lemma mergeLines_frame:
  assumes "p \<notin> product_id ` set ls"
    and "\<forall>l \<in> set ls. \<forall>d. m (product_id l) = Some d \<longrightarrow>
           item_id d \<notin> item_id ` set (CartItem_filter e (Some p) lines)"
  shows "CartItem_filter e (Some p) (snd (mergeLines m e ok i ls lines))
         = CartItem_filter e (Some p) lines"
  using assms
proof (induction ls arbitrary: i lines)
  case Nil
  show ?case by simp
next
  case (Cons l ls)
  have 1: "CartItem_filter e (Some p) (snd (mergeLine m e (ok i) l lines))
           = CartItem_filter e (Some p) lines"
    using Cons.prems by (intro mergeLine_frame) auto
  show ?case unfolding mergeLines_Cons snd_conv
    using Cons.IH [of "snd (mergeLine m e (ok i) l lines)" "Suc i"] Cons.prems 1 by simp
qed

lemma mergeCarts_db:
  "db (mergeCarts localCart e True ok st) =
     snd (mergeLines (dbCartMap (CartItem_filter e None (db st))) e ok 0 localCart (db st))"
  by (simp add: mergeCarts_def mergeCarts_start_def mergeCarts_dispatch_def mergeCarts_settle_def
        mergeCarts_finally_def mergeCarts_catch_def Let_def split: prod.splits
        del: mergeLines.simps)

lemma filter_product_single:
  assumes "distinct (map product_id xs)" and "r \<in> set xs"
  shows "filter (\<lambda>item. product_id item = product_id r) xs = [r]"
  using assms
proof (induction xs)
  case Nil
  then show ?case by simp
next
  case (Cons x xs)
  show ?case
  proof (cases "x = r")
    case True
    from Cons.prems(1) True have "product_id r \<notin> product_id ` set xs" by simp
    then have "\<forall>y \<in> set xs. product_id y \<noteq> product_id r" by (metis imageI)
    then have "filter (\<lambda>item. product_id item = product_id r) xs = []"
      by (simp add: filter_empty_conv)
    with True show ?thesis by simp
  next
    case False
    with Cons.prems have r: "r \<in> set xs" and "product_id x \<noteq> product_id r" by auto
    with Cons.IH Cons.prems(1) show ?thesis by simp
  qed
qed

lemma CartItem_filter_product:
  "CartItem_filter e (Some p) lines
   = filter (\<lambda>item. product_id item = p) (CartItem_filter e None lines)"
  by (simp add: CartItem_filter_def conj_commute)

lemmas merge_defs = mergeCarts_def mergeCarts_start_def mergeCarts_dispatch_def
  mergeCarts_settle_def mergeCarts_finally_def mergeCarts_catch_def mergeLine_def Let_def
  dbCartMap_def CartItem_filter_def CartItem_update_def CartItem_create_def fresh_id_def
  guestA_def remoteA_def ann_def replyAnn_def cart_page_def getLocalCart_def

subsection \<open>The invariants of the data model\<close>

lemma findIndex_None: "findIndex P xs = None \<longleftrightarrow> (\<forall>x \<in> set xs. \<not> P x)"
  by (induction xs) auto

lemma findIndex_less: "findIndex P xs = Some i \<Longrightarrow> i < length xs"
  by (induction xs arbitrary: i) (auto split: if_splits)

text \<open>
  The writers of the stores keep the invariants of the data model: a guest cart keeps one
  line per product, the store keeps one id per line and one line per user and product.
\<close>

lemma guest_cart_stays_distinct:
  assumes "distinct (map product_id (getLocalCart st))" and "user st = None"
  shows "distinct (map product_id (getLocalCart (updateQuantity p q a b c st)))"
    and "distinct (map product_id (getLocalCart (removeItem p a b c st)))"
proof -
  have g: "getLocalCart (s\<lparr>updating := m\<rparr>) = getLocalCart s"
          "getLocalCart (s\<lparr>events := e\<rparr>) = getLocalCart s"
          "getLocalCart (s\<lparr>toasts := t\<rparr>) = getLocalCart s"
          "getLocalCart (loadCartItems a' b' s) = getLocalCart s"
          "getLocalCart (s\<lparr>anonymousCart := Some xs\<rparr>) = xs" for s :: cart and m e t a' b' xs
    by (simp_all add: getLocalCart_def loadCartItems_frame)
  have "map product_id (map (\<lambda>item. if product_id item = p then item\<lparr>quantity := q\<rparr> else item)
          (getLocalCart st)) = map product_id (getLocalCart st)"
    by (induction "getLocalCart st") auto
  with assms show "distinct (map product_id (getLocalCart (updateQuantity p q a b c st)))"
    by (simp add: updateQuantity_def Let_def g del: map_map)
  from assms show "distinct (map product_id (getLocalCart (removeItem p a b c st)))"
    by (simp add: removeItem_def Let_def g distinct_map_filter)
qed

lemma added_guest_cart_stays_distinct:
  assumes "distinct (map product_id (getLocalCart w))" and "shop.user st = None"
  shows "distinct (map product_id (getLocalCart (handleAddToCart st p a b w)))"
proof (cases "findIndex (\<lambda>item. product_id item = id' p) (getLocalCart w)")
  case None
  then have "id' p \<notin> product_id ` set (getLocalCart w)"
    by (auto simp: findIndex_None)
  with assms None show ?thesis by (simp add: add_anonymous)
next
  case (Some i)
  then have "i < length (getLocalCart w)" by (rule findIndex_less)
  then have "map product_id ((getLocalCart w)
          [i := (getLocalCart w ! i)\<lparr>quantity := quantity (getLocalCart w ! i) + 1\<rparr>])
        = map product_id (getLocalCart w)"
    by (simp add: map_update list_update_same_conv)
  with assms Some show ?thesis by (simp add: add_anonymous)
qed

lemma added_store_keeps_invariants:
  assumes "distinct (map item_id (db w))"
    and "distinct (map product_id (CartItem_filter (email u) None (db w)))"
    and "shop.user st = Some u"
  shows "distinct (map item_id (db (handleAddToCart st p True True w)))"
    and "distinct (map product_id
           (CartItem_filter (email u) None (db (handleAddToCart st p True True w))))"
proof -
  have keep: "map f (map (\<lambda>item. if item_id item = i then item\<lparr>quantity := n\<rparr> else item) xs)
              = map f xs"
    if "\<And>item n. f (item\<lparr>quantity := n\<rparr>) = f item" for f :: "cart_item \<Rightarrow> 'b" and i n xs
    by (induction xs) (auto simp: that)
  have filt: "CartItem_filter (email u) None
                 (map (\<lambda>item. if item_id item = i then item\<lparr>quantity := n\<rparr> else item) xs)
              = map (\<lambda>item. if item_id item = i then item\<lparr>quantity := n\<rparr> else item)
                  (CartItem_filter (email u) None xs)" for i n xs
    by (induction xs) (auto simp: CartItem_filter_def)
  show "distinct (map item_id (db (handleAddToCart st p True True w)))"
  proof (cases "CartItem_filter (email u) (Some (id' p)) (db w)")
    case Nil
    with assms(1) fresh_id_notin [of "db w"] show ?thesis
      by (simp add: add_logged_in [OF assms(3)])
  next
    case (Cons x xs)
    with assms(1) show ?thesis
      by (simp add: add_logged_in [OF assms(3)] keep del: map_map)
  qed
  show "distinct (map product_id
           (CartItem_filter (email u) None (db (handleAddToCart st p True True w))))"
  proof (cases "CartItem_filter (email u) (Some (id' p)) (db w)")
    case Nil
    then have "id' p \<notin> product_id ` set (CartItem_filter (email u) None (db w))"
      unfolding CartItem_filter_product by (auto simp: filter_empty_conv)
    with assms(2) Nil show ?thesis
      by (simp add: add_logged_in [OF assms(3)] CartItem_filter_def)
  next
    case (Cons x xs)
    with assms(2) show ?thesis
      by (simp add: add_logged_in [OF assms(3)] filt keep del: map_map)
  qed
qed

subsection \<open>Claims\<close>

text \<open>
  C1. Let the guest lines have pairwise different products, the lines of the store have
  pairwise different ids, and the user have at most one remote line per product. For every
  guest line whose call is served, after \<^verbatim>\<open>mergeCarts\<close> the store holds exactly one line of
  that product for the user: if there was a remote line, it is that line with the guest
  quantity added to its former quantity; if there was none, it is a new line, under an id
  not used before, with exactly the guest quantity.
\<close>

theorem merge_additive:
  assumes guest: "distinct (map product_id localCart)"
    and ids: "distinct (map item_id (db st))"
    and remote: "distinct (map product_id (CartItem_filter e None (db st)))"
    and k: "k < length localCart" and ok: "outcome k"
  shows "case CartItem_filter e (Some (product_id (localCart ! k))) (db st) of
           [] \<Rightarrow>
             (\<exists>n. n \<notin> item_id ` set (db st)
                \<and> CartItem_filter e (Some (product_id (localCart ! k)))
                     (db (mergeCarts localCart e True outcome st)) =
                   [\<lparr>product_id = product_id (localCart ! k), quantity = quantity (localCart ! k),
                     item_id = n, user_email = Some e\<rparr>])
         | r # _ \<Rightarrow>
             CartItem_filter e (Some (product_id (localCart ! k)))
               (db (mergeCarts localCart e True outcome st)) =
             [r\<lparr>quantity := quantity r + quantity (localCart ! k)\<rparr>]"
proof -
  define g where "g = localCart ! k"
  define p where "p = product_id g"
  define pre where "pre = take k localCart"
  define post where "post = drop (Suc k) localCart"
  define S where "S = CartItem_filter e None (db st)"
  define m where "m = dbCartMap S"
  define db1 where "db1 = snd (mergeLines m e outcome 0 pre (db st))"
  define db2 where "db2 = snd (mergeLine m e (outcome k) g db1)"
  define db3 where "db3 = snd (mergeLines m e outcome (Suc k) post db2)"
  let ?F = "CartItem_filter e (Some p)"
  have split: "localCart = pre @ g # post"
    unfolding pre_def post_def g_def using k by (rule id_take_nth_drop)
  have len: "length pre = k" unfolding pre_def using k by simp
  have final: "db (mergeCarts localCart e True outcome st) = db3"
    unfolding mergeCarts_db S_def [symmetric] m_def [symmetric]
    by (subst split)
      (simp add: mergeLines_append mergeLines_Cons len db1_def db2_def db3_def
         del: mergeLines.simps)
  from guest have others: "p \<notin> product_id ` set pre" "p \<notin> product_id ` set post"
    unfolding split p_def by auto
  have target: "d \<in> set (db st) \<and> product_id d = q \<and> user_email d = Some e \<and> d \<in> set S"
    if "m q = Some d" for q d
    using dbCartMap_SomeD [of S q d] that unfolding m_def S_def
    by (auto simp: CartItem_filter_def)
  have ids1: "item_id ` set (db st) \<subseteq> item_id ` set db1"
    unfolding db1_def by (rule mergeLines_ids)
  show ?thesis
  proof (cases "?F (db st)")
    case Nil
    then have "p \<notin> product_id ` set S"
      unfolding S_def CartItem_filter_product by (auto simp: filter_empty_conv)
    then have none: "m p = None" unfolding m_def by (simp add: dbCartMap_None)
    have F1: "?F db1 = []"
      unfolding db1_def using others(1) Nil by (subst mergeLines_frame) auto
    let ?new = "\<lparr>product_id = p, quantity = quantity g, item_id = fresh_id db1,
                 user_email = Some e\<rparr>"
    have "db2 = db1 @ [?new]"
      unfolding db2_def using none ok by (simp add: mergeLine_def p_def CartItem_create_def)
    then have F2: "?F db2 = [?new]" using F1 by (simp add: CartItem_filter_def)
    have fresh: "fresh_id db1 \<notin> item_id ` set (db st)"
      using fresh_id_notin [of db1] ids1 by blast
    have "?F db3 = ?F db2"
      unfolding db3_def
    proof (rule mergeLines_frame [OF others(2)], intro ballI allI impI)
      fix l d assume "l \<in> set post" "m (product_id l) = Some d"
      then have "item_id d \<in> item_id ` set (db st)" using target by blast
      with fresh show "item_id d \<notin> item_id ` set (?F db2)" unfolding F2 by auto
    qed
    with F2 fresh Nil show ?thesis
      unfolding final p_def g_def by auto
  next
    case (Cons r rest)
    then have "r \<in> set (?F (db st))" by simp
    then have r: "r \<in> set S" "product_id r = p" "r \<in> set (db st)"
      unfolding S_def by (auto simp: CartItem_filter_def)
    have F0: "?F (db st) = [r]"
      unfolding CartItem_filter_product S_def [symmetric]
      using filter_product_single [OF remote [folded S_def] r(1)] r(2) by simp
    have mp: "m p = Some r"
      unfolding m_def using dbCartMap_distinct [OF remote [folded S_def] r(1)] r(2) by simp
    have other_ids: "item_id d \<noteq> item_id r"
      if "l \<in> set pre \<union> set post" "m (product_id l) = Some d" for l d
    proof -
      from that others have "product_id l \<noteq> p" by auto
      with target [OF that(2)] r have "d \<in> set (db st)" "d \<noteq> r" by auto
      with ids r(3) show ?thesis by (auto simp: distinct_map inj_on_def)
    qed
    have F1: "?F db1 = [r]"
      unfolding db1_def F0 [symmetric]
      by (rule mergeLines_frame [OF others(1)]) (use other_ids F0 in auto)
    let ?u = "\<lambda>item. if item_id item = item_id r
                      then item\<lparr>quantity := quantity r + quantity g\<rparr> else item"
    have "item_id r \<in> set (map item_id db1)" using r(3) ids1 by auto
    then have "db2 = map ?u db1"
      unfolding db2_def using mp ok by (simp add: mergeLine_def p_def CartItem_update_def)
    moreover have
      "filter (\<lambda>item. user_email item = Some e \<and> product_id item = p) (map ?u db1)
       = map ?u (filter (\<lambda>item. user_email item = Some e \<and> product_id item = p) db1)"
      by (induction db1) auto
    ultimately have "?F db2 = map ?u (?F db1)" by (simp add: CartItem_filter_def)
    then have F2: "?F db2 = [r\<lparr>quantity := quantity r + quantity g\<rparr>]" using F1 by simp
    have "?F db3 = ?F db2"
      unfolding db3_def
      by (rule mergeLines_frame [OF others(2)]) (use other_ids F2 in auto)
    with F2 Cons show ?thesis
      unfolding final p_def g_def by auto
  qed
qed

theorem merge_additive_witness:
  "distinct (map product_id [guestA])
   \<and> distinct (map item_id (db (cart_page [remoteA] (Some [guestA]))))
   \<and> distinct (map product_id
        (CartItem_filter ''ann@example.com'' None (db (cart_page [remoteA] (Some [guestA])))))
   \<and> CartItem_filter ''ann@example.com'' (Some 1)
        (db (mergeCarts [guestA] ''ann@example.com'' True (\<lambda>i. True)
               (cart_page [remoteA] (Some [guestA]))))
      = [\<lparr>product_id = 1, quantity = 5, item_id = 7, user_email = Some ''ann@example.com''\<rparr>]
   \<and> (\<exists>n. CartItem_filter ''ann@example.com'' (Some 1)
        (db (mergeCarts [guestA] ''ann@example.com'' True (\<lambda>i. True)
               (cart_page [] (Some [guestA]))))
      = [\<lparr>product_id = 1, quantity = 2, item_id = n, user_email = Some ''ann@example.com''\<rparr>])
   \<and> anonymousCart (mergeCarts [guestA] ''ann@example.com'' True (\<lambda>i. True)
               (cart_page [remoteA] (Some [guestA]))) = None"
proof -
  let ?e = "''ann@example.com''"
  let ?s1 = "cart_page [remoteA] (Some [guestA])"
  let ?s0 = "cart_page [] (Some [guestA])"
  have g: "distinct (map product_id [guestA])" "(0::nat) < length [guestA]"
    by simp_all
  have n: "[guestA] ! 0 = guestA" by simp
  have pg: "product_id guestA = 1" "quantity guestA = 2"
    by (simp_all add: guestA_def)
  have h1: "distinct (map item_id (db ?s1))"
    "distinct (map product_id (CartItem_filter ?e None (db ?s1)))"
    by (simp_all add: cart_page_def remoteA_def CartItem_filter_def)
  have f1: "CartItem_filter ?e (Some (product_id guestA)) (db ?s1) = [remoteA]"
    by (simp add: cart_page_def remoteA_def guestA_def CartItem_filter_def)
  have h0: "distinct (map item_id (db ?s0))"
    "distinct (map product_id (CartItem_filter ?e None (db ?s0)))"
    by (simp_all add: cart_page_def CartItem_filter_def)
  have f0: "CartItem_filter ?e (Some (product_id guestA)) (db ?s0) = []"
    by (simp add: cart_page_def CartItem_filter_def)
  have c: "anonymousCart (mergeCarts [guestA] ?e True (\<lambda>i. True) ?s1) = None"
    by (simp add: merge_defs)
  have 1: "CartItem_filter ?e (Some (product_id guestA))
             (db (mergeCarts [guestA] ?e True (\<lambda>i. True) ?s1))
           = [remoteA\<lparr>quantity := quantity remoteA + quantity guestA\<rparr>]"
    using merge_additive [OF g(1) h1(1) h1(2) g(2), of "\<lambda>i. True"]
    unfolding n f1 by simp
  have 0: "\<exists>n. CartItem_filter ?e (Some (product_id guestA))
             (db (mergeCarts [guestA] ?e True (\<lambda>i. True) ?s0))
           = [\<lparr>product_id = product_id guestA, quantity = quantity guestA, item_id = n,
               user_email = Some ?e\<rparr>]"
    using merge_additive [OF g(1) h0(1) h0(2) g(2), of "\<lambda>i. True"]
    unfolding n f0 by auto
  have r: "remoteA\<lparr>quantity := quantity remoteA + 2\<rparr>
           = \<lparr>product_id = 1, quantity = 5, item_id = 7, user_email = Some ?e\<rparr>"
    by (simp add: remoteA_def)
  from 0 1 show ?thesis unfolding pg r using g(1) h1 c by simp
qed

text \<open>
  C2. When \<^verbatim>\<open>mergeCarts\<close> ends it has dispatched one \<^verbatim>\<open>cartUpdated\<close> event and reset
  \<^verbatim>\<open>isMerging\<close>, whatever the outcomes. The guest cart is removed from local storage only
  when the fetch of the remote lines and the call of every guest line succeeded; as soon
  as one of them fails, the failure is logged and reported by one error toast, and the
  guest cart stays in local storage as it was.
\<close>

theorem merge_completion:
  "events (mergeCarts localCart e fetched ok st) = events st @ [''cartUpdated'']
   \<and> isMerging (mergeCarts localCart e fetched ok st) = False
   \<and> (if fetched \<and> (\<forall>i < length localCart. ok i)
       then anonymousCart (mergeCarts localCart e fetched ok st) = None
          \<and> toasts (mergeCarts localCart e fetched ok st) =
              toasts st @ [Toast ''Cart Updated''
                             ''Your guest cart has been merged with your account.'' False]
          \<and> console (mergeCarts localCart e fetched ok st) = console st
       else anonymousCart (mergeCarts localCart e fetched ok st) = anonymousCart st
          \<and> toasts (mergeCarts localCart e fetched ok st) =
              toasts st @ [Toast ''Error merging carts''
                             ''There was a problem merging your carts. Please try again.'' True]
          \<and> console (mergeCarts localCart e fetched ok st) =
              console st @ [''Error merging carts:''])"
proof -
  let ?m = "dbCartMap (CartItem_filter e None (db st))"
  have "\<forall>p d. ?m p = Some d \<longrightarrow> item_id d \<in> item_id ` set (db st)"
    using dbCartMap_SomeD by (fastforce simp: CartItem_filter_def)
  then have "fst (mergeLines ?m e ok 0 localCart (db st))
             = map (\<lambda>j. ok (0 + j)) [0 ..< length localCart]"
    by (rule mergeLines_fulfilled)
  moreover obtain promises lines
    where ml: "mergeLines ?m e ok 0 localCart (db st) = (promises, lines)"
    by fastforce
  ultimately have all: "list_all (\<lambda>fulfilled. fulfilled) promises
                        \<longleftrightarrow> (\<forall>i < length localCart. ok i)"
    by (auto simp: list_all_iff)
  show ?thesis
    using all
    by (simp add: mergeCarts_def mergeCarts_start_def mergeCarts_dispatch_def
          mergeCarts_settle_def mergeCarts_finally_def mergeCarts_catch_def Let_def ml
          del: mergeLines.simps)
qed

theorem merge_completion_witness:
  "line_ok replyAnn 0
   \<and> anonymousCart (mergeCarts [guestA] ''ann@example.com'' True (line_ok replyAnn)
        (cart_page [remoteA] (Some [guestA]))) = None
   \<and> \<not> line_ok replyRefused 0
   \<and> anonymousCart (mergeCarts [guestA] ''ann@example.com'' True (line_ok replyRefused)
        (cart_page [remoteA] (Some [guestA]))) = Some [guestA]
   \<and> toasts (mergeCarts [guestA] ''ann@example.com'' True (line_ok replyRefused)
        (cart_page [remoteA] (Some [guestA]))) =
        [Toast ''Error merging carts''
           ''There was a problem merging your carts. Please try again.'' True]
   \<and> events (mergeCarts [guestA] ''ann@example.com'' True (line_ok replyRefused)
        (cart_page [remoteA] (Some [guestA]))) = [''cartUpdated'']"
proof -
  let ?st = "cart_page [remoteA] (Some [guestA])"
  have a: "\<forall>i < length [guestA]. line_ok replyAnn i" by (simp add: replyAnn_def)
  have r: "\<not> (\<forall>i < length [guestA]. line_ok replyRefused i)" by (simp add: replyRefused_def)
  have s: "anonymousCart ?st = Some [guestA]" "toasts ?st = []" "events ?st = []"
    by (simp_all add: cart_page_def)
  have z: "line_ok replyAnn 0" "\<not> line_ok replyRefused 0"
    by (simp_all add: replyAnn_def replyRefused_def)
  from merge_completion [of "[guestA]" "''ann@example.com''" True "line_ok replyAnn" ?st]
    merge_completion [of "[guestA]" "''ann@example.com''" True "line_ok replyRefused" ?st]
    a r s z
  show ?thesis by simp
qed

text \<open>
  Against C2 as it is stated, the guest cart is not cleared regardless of the outcomes: when the call of the only
  guest line is refused, the merge still ends with its event, and the guest cart is still
  in local storage.
\<close>

theorem merge_clears_counterexample:
  "events (mergeCarts [guestA] ''ann@example.com'' True (line_ok replyRefused)
        (cart_page [] (Some [guestA]))) = [''cartUpdated'']
   \<and> anonymousCart (mergeCarts [guestA] ''ann@example.com'' True (line_ok replyRefused)
        (cart_page [] (Some [guestA]))) \<noteq> None"
  by (simp add: merge_defs replyRefused_def)

text \<open>
  C3. \<^verbatim>\<open>loadUser\<close> starts \<^verbatim>\<open>mergeCarts\<close> only when the guest cart is not empty and
  \<^verbatim>\<open>User.me()\<close> gave a user with an email. \<^verbatim>\<open>mergeCarts\<close> sets \<^verbatim>\<open>isMerging\<close> when it starts
  and clears it when it ends, but \<^verbatim>\<open>loadUser\<close> does not read the flag: whether it starts
  the merge is the same for either value of \<^verbatim>\<open>isMerging\<close>. A call that nothing interrupts
  is \<open>loadUser\<close>.
\<close>

theorem loadUser_merge_guard:
  "(fst (resume r AwaitMe st) \<noteq> Done \<longrightarrow>
      getLocalCart st \<noteq> []
      \<and> (\<exists>u. me r = Some u \<and> email u \<noteq> []
             \<and> fst (resume r AwaitMe st) = AwaitFilter (getLocalCart st) (email u))
      \<and> isMerging (snd (resume r AwaitMe st))
      \<and> \<not> isMerging (loadUser r st))
   \<and> (getLocalCart st = [] \<longrightarrow> loadUser r st = st\<lparr>user := me r\<rparr>)
   \<and> fst (resume r AwaitMe (st\<lparr>isMerging := b\<rparr>)) = fst (resume r AwaitMe st)
   \<and> run [0, 0, 0] [(r, AwaitMe)] st = ([(r, Done)], loadUser r st)"
proof -
  have g: "getLocalCart (s\<lparr>user := v\<rparr>) = getLocalCart s"
          "getLocalCart (s\<lparr>isMerging := b'\<rparr>) = getLocalCart s" for s :: cart and v b'
    by (simp_all add: getLocalCart_def)
  have A: "fst (resume r AwaitMe st) \<noteq> Done \<longrightarrow>
      getLocalCart st \<noteq> []
      \<and> (\<exists>u. me r = Some u \<and> email u \<noteq> []
             \<and> fst (resume r AwaitMe st) = AwaitFilter (getLocalCart st) (email u))
      \<and> isMerging (snd (resume r AwaitMe st))
      \<and> \<not> isMerging (loadUser r st)"
    by (auto simp: Let_def g loadUser_def mergeCarts_def mergeCarts_start_def
          mergeCarts_settle_def mergeCarts_finally_def mergeCarts_catch_def
          split: option.splits prod.splits simp del: mergeLines.simps)
  have B: "getLocalCart st = [] \<longrightarrow> loadUser r st = st\<lparr>user := me r\<rparr>"
    by (auto simp: loadUser_def Let_def g split: option.splits)
  have C: "fst (resume r AwaitMe (st\<lparr>isMerging := b\<rparr>)) = fst (resume r AwaitMe st)"
    by (auto simp: Let_def g split: option.splits)
  have D: "run [0, 0, 0] [(r, AwaitMe)] st = ([(r, Done)], loadUser r st)"
    by (auto simp: Let_def g loadUser_def mergeCarts_def
          split: option.splits prod.splits simp del: mergeLines.simps)
  show ?thesis by (intro conjI) (fact A B C D)+
qed

theorem loadUser_merge_guard_witness:
  "fst (resume replyAnn AwaitMe (cart_page [remoteA] (Some [guestA]))) \<noteq> Done
   \<and> getLocalCart (cart_page [remoteA] (Some [guestA])) \<noteq> []
   \<and> isMerging (snd (resume replyAnn AwaitMe (cart_page [remoteA] (Some [guestA]))))
   \<and> \<not> isMerging (loadUser replyAnn (cart_page [remoteA] (Some [guestA])))
   \<and> getLocalCart (cart_page [remoteA] None) = []
   \<and> loadUser replyAnn (cart_page [remoteA] None) = (cart_page [remoteA] None)\<lparr>user := Some ann\<rparr>
   \<and> map quantity (db (snd (run [0, 0, 0] [(replyAnn, AwaitMe)]
                               (cart_page [remoteA] (Some [guestA]))))) = [5]"
proof -
  let ?st = "cart_page [remoteA] (Some [guestA])"
  let ?s0 = "cart_page [remoteA] None"
  have a: "fst (resume replyAnn AwaitMe ?st) \<noteq> Done"
    by (simp add: merge_defs)
  have b: "getLocalCart ?s0 = []" "me replyAnn = Some ann"
    by (simp_all add: merge_defs)
  have c: "map quantity (db (loadUser replyAnn ?st)) = [5]"
    by (simp add: loadUser_def merge_defs)
  from loadUser_merge_guard [of replyAnn ?st] a
  have 1: "getLocalCart ?st \<noteq> [] \<and> isMerging (snd (resume replyAnn AwaitMe ?st))
           \<and> \<not> isMerging (loadUser replyAnn ?st)"
    by blast
  from loadUser_merge_guard [of replyAnn ?s0]
  have "getLocalCart ?s0 = [] \<longrightarrow> loadUser replyAnn ?s0 = ?s0\<lparr>user := me replyAnn\<rparr>"
    by blast
  with b have 2: "loadUser replyAnn ?s0 = ?s0\<lparr>user := Some ann\<rparr>" by simp
  from loadUser_merge_guard [of replyAnn ?st]
  have "run [0, 0, 0] [(replyAnn, AwaitMe)] ?st = ([(replyAnn, Done)], loadUser replyAnn ?st)"
    by blast
  with c have 3: "map quantity (db (snd (run [0, 0, 0] [(replyAnn, AwaitMe)] ?st))) = [5]"
    by simp
  show ?thesis by (intro conjI) (use a b 1 2 3 in blast)+
qed

text \<open>
  Against C3 as it is stated, no guard keeps a second call out of the merge. Of two calls of \<^verbatim>\<open>loadUser\<close> for the same
  login, the first starts the merge and sets \<^verbatim>\<open>isMerging\<close>; the second, resumed while the
  first waits, starts the merge as well; each then adds the guest quantity 2 to the
  remote line, which ends at 7 and not at 5.
\<close>

theorem merge_reentrancy_counterexample:
  "isMerging (snd (run [0] two_calls (cart_page [remoteA] (Some [guestA]))))
   \<and> map snd (fst (run [0, 1] two_calls (cart_page [remoteA] (Some [guestA])))) =
       [AwaitFilter [guestA] ''ann@example.com'', AwaitFilter [guestA] ''ann@example.com'']
   \<and> map snd (fst (run [0, 1, 0, 1, 0, 1] two_calls (cart_page [remoteA] (Some [guestA])))) =
       [Done, Done]
   \<and> map quantity (db (snd (run [0, 1, 0, 1, 0, 1] two_calls
                               (cart_page [remoteA] (Some [guestA]))))) = [7]"
  by (simp add: merge_defs two_calls_def)

end
